theory Spec2Isabelle
  imports Complex_Main "HOL-Library.Word"
begin

section \<open>Strings of the host language\<close>

text \<open>
  The program is TypeScript: a string is a sequence of 16-bit code units, and the
  regular-expression classes it uses (\<^verbatim>\<open>\s\<close>, \<^verbatim>\<open>\d\<close>) are
  classes of code units. Strings are therefore lists of 16-bit words; \<open>js\<close>
  embeds a literal written with 8-bit characters.
\<close>

type_synonym jschar = "16 word"
type_synonym jstring = "jschar list"

definition cu :: "char \<Rightarrow> jschar" where
  "cu c = of_char c"

definition js :: "string \<Rightarrow> jstring" where
  "js s = map cu s"

text \<open>
  \<^verbatim>\<open>`${n}`\<close> for a non-negative integer \<open>n\<close>: its decimal digits, most
  significant first, no leading zero.
\<close>

fun show_nat :: "nat \<Rightarrow> jstring" where
  "show_nat n =
     (if n < 10 then [48 + of_nat n]
      else show_nat (n div 10) @ [48 + of_nat (n mod 10)])"

declare show_nat.simps [simp del]

text \<open>
  The class \<^verbatim>\<open>\s\<close>: the white-space and line-terminator code units of
  ECMAScript (tab, LF, VT, FF, CR, space, NBSP, U+1680, U+2000 to U+200A, U+2028, U+2029,
  U+202F, U+205F, U+3000, U+FEFF).
\<close>

definition is_space :: "jschar \<Rightarrow> bool" where
  "is_space c \<longleftrightarrow>
     c \<in> {0x09, 0x0A, 0x0B, 0x0C, 0x0D, 0x20, 0xA0, 0x1680, 0x2028, 0x2029,
          0x202F, 0x205F, 0x3000, 0xFEFF}
     \<or> (0x2000 \<le> c \<and> c \<le> 0x200A)"

text \<open>The class \<^verbatim>\<open>\d\<close>: the ten ASCII digits.\<close>

definition is_digit :: "jschar \<Rightarrow> bool" where
  "is_digit c \<longleftrightarrow> 0x30 \<le> c \<and> c \<le> 0x39"

text \<open>
  \<^verbatim>\<open>s.split(/\s+/)\<close>: the piece before the next maximal run of white space, then the
  split of what follows the run. The empty string gives one empty piece; a string that
  starts or ends with white space gives an empty first or last piece.
\<close>

function split_whitespace :: "jstring \<Rightarrow> jstring list" where
  "split_whitespace s =
     (let tok = takeWhile (\<lambda>c. \<not> is_space c) s;
          rest = dropWhile (\<lambda>c. \<not> is_space c) s
      in if rest = [] then [tok]
         else tok # split_whitespace (dropWhile is_space rest))"
  by pat_completeness auto

termination split_whitespace
proof (relation "measure length")
  show "wf (measure length)"
    by simp
next
  fix s :: jstring and tok rest :: jstring
  assume rest: "rest = dropWhile (\<lambda>c. \<not> is_space c) s" and ne: "rest \<noteq> []"
  from ne obtain c cs where cons: "rest = c # cs"
    by (cases rest) auto
  have "is_space (hd rest)"
    using hd_dropWhile [of "\<lambda>c. \<not> is_space c" s] ne rest by auto
  then have "dropWhile is_space rest = dropWhile is_space cs"
    using cons by simp
  moreover have "length (dropWhile is_space cs) \<le> length cs"
    by (rule length_dropWhile_le)
  moreover have "length rest \<le> length s"
    unfolding rest by (rule length_dropWhile_le)
  ultimately have "length (dropWhile is_space rest) < length s"
    using cons by simp
  then show "(dropWhile is_space rest, s) \<in> measure length"
    by simp
qed

declare split_whitespace.simps [simp del]

section \<open>Word count and reading time\<close>

text \<open>
  \<^verbatim>\<open>
  private countWords(text: string): number {
    return text
      .replace(/[#*_`\[\]()]/g, '')
      .split(/\s+/)
      .filter(word => word.length > 0).length;
  }
  \<close>
\<close>

definition markdown_chars :: "jschar set" where
  "markdown_chars =
     {cu CHR ''#'', cu CHR ''*'', cu CHR ''_'', cu CHR 0x60,
      cu CHR ''['', cu CHR '']'', cu CHR ''('', cu CHR '')''}"

definition strip_markdown :: "jstring \<Rightarrow> jstring" where
  "strip_markdown text = filter (\<lambda>c. c \<notin> markdown_chars) text"

definition countWords :: "jstring \<Rightarrow> nat" where
  "countWords text =
     length (filter (\<lambda>word. length word > 0) (split_whitespace (strip_markdown text)))"

text \<open>
  \<^verbatim>\<open>`${Math.ceil(wordCount / 200)} min`\<close>. The quotient is a double; for a word count
  below \<open>2^53\<close> the rounded quotient has the same ceiling as the exact one, which is
  what the model computes.
\<close>

definition readingTimeOf :: "nat \<Rightarrow> jstring" where
  "readingTimeOf wordCount = show_nat (nat \<lceil>real wordCount / 200\<rceil>) @ js '' min''"

text \<open>
  The rule in the words of the specification: delete the formatting characters, then
  count the maximal runs of non-white-space code units. \<open>word_starts prev s\<close> counts
  the positions of \<open>s\<close> that hold a non-space unit whose predecessor is white space,
  \<open>prev\<close> telling whether the unit before \<open>s\<close> counts as white space.
\<close>

fun word_starts :: "bool \<Rightarrow> jstring \<Rightarrow> nat" where
  "word_starts prev [] = 0"
| "word_starts prev (c # cs) =
     (if is_space c then word_starts True cs
      else (if prev then 1 else 0) + word_starts False cs)"

definition spec_word_count :: "jstring \<Rightarrow> nat" where
  "spec_word_count text = word_starts True (strip_markdown text)"

section \<open>The regular expressions of the response parsers\<close>

text \<open>
  \<^verbatim>\<open>content.match(/\{[\s\S]*\}/)\<close>: the leftmost match starts at the first
  \<^verbatim>\<open>{\<close>; the starred class is greedy and matches every code unit, so the match runs
  to the last \<^verbatim>\<open>}\<close> behind it. There is no match when no \<^verbatim>\<open>}\<close> follows the
  first \<^verbatim>\<open>{\<close>.
\<close>

definition match_json_object :: "jstring \<Rightarrow> jstring option" where
  "match_json_object content =
     (case dropWhile (\<lambda>c. c \<noteq> cu CHR ''{'') content of
        [] \<Rightarrow> None
      | open_brace # rest \<Rightarrow>
          (if cu CHR ''}'' \<in> set rest
           then Some (open_brace # rev (dropWhile (\<lambda>c. c \<noteq> cu CHR ''}'') (rev rest)))
           else None))"

text \<open>
  Matching under the flag \<^verbatim>\<open>i\<close> compares canonical forms. The pattern
  \<^verbatim>\<open>## References\<close> holds ASCII only, and the one code units whose canonical form
  is an ASCII capital are that capital and its ASCII lower-case letter, so upper-casing
  the range a to z is the whole of the comparison.
\<close>

definition to_upper :: "jschar \<Rightarrow> jschar" where
  "to_upper c = (if 0x61 \<le> c \<and> c \<le> 0x7A then c - 0x20 else c)"

definition starts_with_ci :: "jstring \<Rightarrow> jstring \<Rightarrow> bool" where
  "starts_with_ci pat s \<longleftrightarrow>
     length pat \<le> length s \<and> map to_upper (take (length pat) s) = map to_upper pat"

text \<open>
  \<^verbatim>\<open>content.match(/## References[\s\S]*$/i)\<close>: the match starts at the first place
  where the heading text occurs, wherever that is in a line, and runs to the end of the
  text.
\<close>

fun match_references :: "jstring \<Rightarrow> jstring option" where
  "match_references [] = None"
| "match_references (c # cs) =
     (if starts_with_ci (js ''## References'') (c # cs) then Some (c # cs)
      else match_references cs)"

text \<open>\<^verbatim>\<open>s.split('\n')\<close>: the pieces between line feeds, empty pieces kept.\<close>

fun split_lines :: "jstring \<Rightarrow> jstring list" where
  "split_lines [] = [[]]"
| "split_lines (c # cs) =
     (if c = cu CHR 0x0A then [] # split_lines cs
      else (case split_lines cs of
              [] \<Rightarrow> [[c]]
            | line # lines \<Rightarrow> (c # line) # lines))"

text \<open>\<^verbatim>\<open>line.match(/^\d+\./)\<close>: one or more digits at the start, then a full stop.\<close>

definition numbered_line :: "jstring \<Rightarrow> bool" where
  "numbered_line line \<longleftrightarrow>
     takeWhile is_digit line \<noteq> [] \<and>
     (case dropWhile is_digit line of [] \<Rightarrow> False | c # _ \<Rightarrow> c = cu CHR ''.'')"

text \<open>
  \<^verbatim>\<open>line.match(/\[([^\]]+)\]\(([^)]+)\)/)\<close>. \<open>link_at\<close> is the attempt at one
  start position: an opening bracket, a non-empty label free of closing brackets, the
  two units \<^verbatim>\<open>](\<close>, a non-empty target free of closing parentheses, a closing
  parenthesis. Both classes exclude exactly the unit that must follow them, so the
  greedy choice is the only one. \<open>first_link\<close> tries the start positions from the left.
\<close>

definition link_at :: "jstring \<Rightarrow> (jstring \<times> jstring) option" where
  "link_at s =
     (case s of
        [] \<Rightarrow> None
      | c # after_open \<Rightarrow>
          if c \<noteq> cu CHR ''['' then None
          else
            let label = takeWhile (\<lambda>x. x \<noteq> cu CHR '']'') after_open;
                after_label = dropWhile (\<lambda>x. x \<noteq> cu CHR '']'') after_open
            in if label = [] then None
               else (case after_label of
                       close_bracket # open_paren # after_paren \<Rightarrow>
                         if open_paren \<noteq> cu CHR ''('' then None
                         else
                           let target = takeWhile (\<lambda>x. x \<noteq> cu CHR '')'') after_paren;
                               after_target = dropWhile (\<lambda>x. x \<noteq> cu CHR '')'') after_paren
                           in if target = [] \<or> after_target = [] then None
                              else Some (label, target)
                     | _ \<Rightarrow> None))"

fun first_link :: "jstring \<Rightarrow> (jstring \<times> jstring) option" where
  "first_link [] = None"
| "first_link (c # cs) =
     (case link_at (c # cs) of
        Some m \<Rightarrow> Some m
      | None \<Rightarrow> first_link cs)"

section \<open>Reference extraction\<close>

text \<open>
  \<^verbatim>\<open>
  private extractReferences(content: string): Reference[] {
    const references: Reference[] = [];
    const refSection = content.match(/## References[\s\S]*$/i);
    if (refSection) {
      const refLines = refSection[0].split('\n').filter(line => line.match(/^\d+\./));
      refLines.forEach((line, index) => {
        const urlMatch = line.match(/\[([^\]]+)\]\(([^)]+)\)/);
        if (urlMatch) {
          references.push({ number: index + 1, source: urlMatch[1], url: urlMatch[2] });
        }
      });
    }
    return references;
  }
  \<close>
  The loop is a recursion over the kept lines that carries the index and the array
  being filled.
\<close>

record Reference =
  number :: nat
  source :: jstring
  url :: jstring

fun collect_references :: "nat \<Rightarrow> jstring list \<Rightarrow> Reference list \<Rightarrow> Reference list" where
  "collect_references index [] references = references"
| "collect_references index (line # refLines) references =
     (case first_link line of
        Some (label, target) \<Rightarrow>
          collect_references (index + 1) refLines
            (references @ [\<lparr>number = index + 1, source = label, url = target\<rparr>])
      | None \<Rightarrow> collect_references (index + 1) refLines references)"

definition extractReferences :: "jstring \<Rightarrow> Reference list" where
  "extractReferences content =
     (case match_references content of
        None \<Rightarrow> []
      | Some refSection \<Rightarrow>
          collect_references 0 (filter numbered_line (split_lines refSection)) [])"

section \<open>Errors\<close>

text \<open>
  What the program throws: a plain \<^verbatim>\<open>Error\<close> with a message, or the research
  client's \<^verbatim>\<open>DataForSEOError\<close> with a message, a code and an optional HTTP status.
\<close>

datatype js_error =
    Error (message: jstring)
  | DataForSEOError (message: jstring) (code: jstring) (statusCode: "nat option")

section \<open>Data model\<close>

text \<open>
  The interfaces of \<^verbatim>\<open>types/index.ts\<close>. A \<^verbatim>\<open>number\<close> that comes from outside
  (a request, a provider, parsed model output) is a real; a number the program counts
  itself is a natural number. An optional field is an \<open>option\<close>. The fields
  \<^verbatim>\<open>keywords\<close> and \<^verbatim>\<open>context\<close> are written with a prime.
\<close>

datatype Relevance = high | medium | low

record InternalLink =
  url :: jstring
  title :: jstring
  relevance :: "Relevance option"

record ArticleGenerationInput =
  topic :: jstring
  targetAudience :: "jstring option"
  contentType :: "jstring option"
  targetWordCount :: "real option"
  includeKeywordResearch :: "bool option"
  includeFAQ :: "bool option"
  internalLinks :: "InternalLink list option"

record SERPItem =
  rank :: nat
  url :: jstring
  title :: jstring
  description :: jstring
  domain :: jstring

record SERPResult =
  keyword :: jstring
  totalResults :: real
  items :: "SERPItem list"

datatype Intent = informational | commercial | transactional

record PrimaryKeyword =
  keyword :: jstring
  searchVolume :: real
  competition :: jstring
  competitionLevel :: Relevance
  cpc :: real
  intent :: Intent
  aiCitationFormat :: jstring

record SecondaryKeyword =
  keyword :: jstring
  volume :: real
  intent :: jstring
  competition :: jstring
  useIn :: jstring

record LongTailKeyword =
  keyword :: jstring
  volume :: real
  intent :: jstring

record LongTailCluster =
  theme :: jstring
  keywords' :: "LongTailKeyword list"

datatype Priority = HIGH | MEDIUM | LOW

record QuestionKeyword =
  question :: jstring
  priority :: Priority
  volume :: real
  placement :: jstring

datatype HeadingType = h2 | h3

datatype ContentSection =
  ContentSection (type: HeadingType) (title: jstring) (wordCount: real) (intent: jstring)
    (keywords': "jstring list") (subsections: "ContentSection list option")

record ContentStructure =
  h1 :: jstring
  metaTitle :: jstring
  metaDescription :: jstring
  targetWordCount :: real
  sections :: "ContentSection list"

record IntentDistribution =
  informational :: real
  commercial :: real
  transactional :: real

record CompetitiveAnalysis =
  totalKeywordsDiscovered :: real
  averageVolume :: real
  intentDistribution :: IntentDistribution
  contentGaps :: "jstring list"

record KeywordResearchResult =
  primaryKeyword :: PrimaryKeyword
  secondaryKeywords :: "SecondaryKeyword list"
  longTailClusters :: "LongTailCluster list"
  questions :: "QuestionKeyword list"
  contentStructure :: ContentStructure
  competitiveAnalysis :: CompetitiveAnalysis

record OutlineMetadata =
  primaryKeyword :: jstring
  h1 :: jstring
  metaTitle :: jstring
  metaDescription :: jstring
  targetWordCount :: real

record KeyTakeaway =
  mainAnswer :: jstring
  bullets :: "jstring list"

record OutlineParagraph =
  wordCount :: real
  whatToWrite :: "jstring list"
  keywords' :: "jstring list"

record Paragraphs =
  paragraphs :: "OutlineParagraph list"

datatype OutlineSection =
  OutlineSection (type: HeadingType) (title: jstring) (wordCount: real) (intent: jstring)
    (paragraphs: "OutlineParagraph list") (subsections: "OutlineSection list option")

record AnswerStructure =
  directAnswer :: jstring
  context' :: jstring

record FAQItem =
  question :: jstring
  priority :: jstring
  answerStructure :: AnswerStructure
  wordCount :: real

record Citation =
  sourceName :: jstring
  url :: jstring
  type :: jstring
  useIn :: jstring

record OutlineResult =
  metadata :: OutlineMetadata
  keyTakeaway :: KeyTakeaway
  introduction :: Paragraphs
  sections :: "OutlineSection list"
  faq :: "FAQItem list"
  conclusion :: Paragraphs
  citations :: "Citation list"

record ArticleResult =
  title :: jstring
  content :: jstring
  wordCount :: nat
  readingTime :: jstring

record Seo =
  metaTitle :: jstring
  metaDescription :: jstring
  primaryKeyword :: jstring
  secondaryKeywords :: "jstring list"

record PlacedInternalLink =
  anchorText :: jstring
  url :: jstring
  placement :: jstring

record OutputData =
  article :: ArticleResult
  seo :: Seo
  outline :: OutlineResult
  keywordResearch :: KeywordResearchResult
  references :: "Reference list"
  internalLinks :: "PlacedInternalLink list"

record TokensUsed =
  keywordResearch :: real
  outline :: real
  article :: real

record OutputMetadata =
  generatedAt :: jstring
  processingTime :: real
  tokensUsed :: TokensUsed

record ArticleGenerationOutput =
  success :: bool
  data :: OutputData
  metadata :: OutputMetadata

record ProgressData =
  phase :: jstring
  progress :: nat
  message :: jstring

record ChunkData =
  content :: jstring

record CompleteData =
  success :: bool
  data :: OutputData
  metadata :: OutputMetadata

record ErrorData =
  message :: jstring
  code :: jstring

text \<open>
  \<^verbatim>\<open>StreamEvent\<close> pairs a type tag with the data of that type; the tagged union is
  a datatype with one constructor for each tag.
\<close>

datatype StreamEvent =
    progress_event ProgressData
  | chunk_event ChunkData
  | complete_event CompleteData
  | error_event ErrorData

datatype Role = system | user | assistant

record Message =
  role :: Role
  content :: jstring

record AICompletionRequest =
  messages :: "Message list"
  maxTokens :: "real option"
  temperature :: "real option"

record AICompletionResponse =
  content :: jstring
  tokensUsed :: real

section \<open>Truthiness\<close>

text \<open>
  \<^verbatim>\<open>x || d\<close> yields \<open>d\<close> when \<open>x\<close> is undefined, the empty string or zero,
  and \<^verbatim>\<open>a?.f\<close> is undefined when \<open>a\<close> is.
\<close>

definition str_or :: "jstring option \<Rightarrow> jstring \<Rightarrow> jstring" where
  "str_or x d = (case x of None \<Rightarrow> d | Some s \<Rightarrow> if s = [] then d else s)"

definition num_or :: "real option \<Rightarrow> real \<Rightarrow> real" where
  "num_or x d = (case x of None \<Rightarrow> d | Some n \<Rightarrow> if n = 0 then d else n)"

definition first_of :: "'a list \<Rightarrow> 'a option" where
  "first_of xs = (case xs of [] \<Rightarrow> None | x # _ \<Rightarrow> Some x)"

section \<open>Generation provider clients\<close>

text \<open>
  \<^verbatim>\<open>
  constructor(config?: Partial<OpenAIConfig>) {
    this.config = {
      apiKey: config?.apiKey || process.env.OPENAI_API_KEY || '',
      model: config?.model || 'gpt-4-turbo-preview',
      maxTokens: config?.maxTokens || 4096,
      temperature: config?.temperature || 0.7,
    };
    if (!this.config.apiKey) {
      throw new Error('OpenAI API key not configured');
    }
  }
  \<close>
  The Gemini client has the same constructor with its own variable, defaults and message.
  A constructor that throws returns \<open>Inl\<close>; the client object is its configuration.
\<close>

record ProcessEnv =
  DATAFORSEO_LOGIN :: "jstring option"
  DATAFORSEO_PASSWORD :: "jstring option"
  OPENAI_API_KEY :: "jstring option"
  GOOGLE_AI_API_KEY :: "jstring option"

record PartialOpenAIConfig =
  apiKey :: "jstring option"
  model :: "jstring option"
  maxTokens :: "real option"
  temperature :: "real option"

record OpenAIConfig =
  apiKey :: jstring
  model :: jstring
  maxTokens :: real
  temperature :: real

record PartialGeminiConfig =
  apiKey :: "jstring option"
  model :: "jstring option"
  maxTokens :: "real option"
  temperature :: "real option"

record GeminiConfig =
  apiKey :: jstring
  model :: jstring
  maxTokens :: real
  temperature :: real

definition new_OpenAIClient ::
  "ProcessEnv \<Rightarrow> PartialOpenAIConfig option \<Rightarrow> js_error + OpenAIConfig" where
  "new_OpenAIClient env config =
     (let this_config =
        \<lparr>OpenAIConfig.apiKey =
           str_or (Option.bind config PartialOpenAIConfig.apiKey)
             (str_or (OPENAI_API_KEY env) []),
         model = str_or (Option.bind config PartialOpenAIConfig.model)
                   (js ''gpt-4-turbo-preview''),
         maxTokens = num_or (Option.bind config PartialOpenAIConfig.maxTokens) 4096,
         temperature = num_or (Option.bind config PartialOpenAIConfig.temperature) 0.7\<rparr>
      in if OpenAIConfig.apiKey this_config = []
         then Inl (Error (js ''OpenAI API key not configured''))
         else Inr this_config)"

definition new_GeminiClient ::
  "ProcessEnv \<Rightarrow> PartialGeminiConfig option \<Rightarrow> js_error + GeminiConfig" where
  "new_GeminiClient env config =
     (let this_config =
        \<lparr>GeminiConfig.apiKey =
           str_or (Option.bind config PartialGeminiConfig.apiKey)
             (str_or (GOOGLE_AI_API_KEY env) []),
         model = str_or (Option.bind config PartialGeminiConfig.model)
                   (js ''gemini-1.5-pro''),
         maxTokens = num_or (Option.bind config PartialGeminiConfig.maxTokens) 8192,
         temperature = num_or (Option.bind config PartialGeminiConfig.temperature) 0.7\<rparr>
      in if GeminiConfig.apiKey this_config = []
         then Inl (Error (js ''Google AI API key not configured''))
         else Inr this_config)"

text \<open>A key is available where the source reads it when it is defined and not empty.\<close>

definition key_available :: "jstring option \<Rightarrow> bool" where
  "key_available k \<longleftrightarrow> (case k of None \<Rightarrow> False | Some s \<Rightarrow> s \<noteq> [])"

datatype AIClient = OpenAIClient OpenAIConfig | GeminiClient GeminiConfig

text \<open>
  \<open>complete\<close> and \<open>stream\<close> are methods of a constructed client: the credential they
  send is the key of the configuration the constructor returned.
\<close>

fun client_key :: "AIClient \<Rightarrow> jstring" where
  "client_key (OpenAIClient c) = OpenAIConfig.apiKey c"
| "client_key (GeminiClient c) = GeminiConfig.apiKey c"

section \<open>Research provider client\<close>

text \<open>
  The response types of \<^verbatim>\<open>dataforseo/types.ts\<close>, with the fields the client reads
  and the provider's own rank numbers. \<^verbatim>\<open>tasks\<close>, \<^verbatim>\<open>result\<close> and
  \<^verbatim>\<open>items\<close> are read through \<^verbatim>\<open>?.\<close> and \<^verbatim>\<open>description\<close> through
  \<^verbatim>\<open>||\<close>, so they may be absent.
\<close>

record ProviderSERPItem =
  type :: jstring
  rank_group :: real
  rank_absolute :: real
  domain :: jstring
  title :: jstring
  url :: jstring
  description :: "jstring option"

record SERPTaskResult =
  keyword :: jstring
  se_results_count :: real
  items :: "ProviderSERPItem list option"

record KeywordSuggestion =
  keyword :: jstring
  search_volume :: real
  competition_level :: jstring
  cpc :: real
  keyword_difficulty :: real

record SuggestionsResult =
  items :: "KeywordSuggestion list option"

record 'r DataForSEOTask =
  result :: "'r list option"

record 'r DataForSEOResponse =
  tasks :: "'r DataForSEOTask list option"

record PartialDataForSEOConfig =
  login :: "jstring option"
  password :: "jstring option"
  baseUrl :: "jstring option"

record DataForSEOConfig =
  login :: jstring
  password :: jstring
  baseUrl :: jstring

text \<open>
  \<^verbatim>\<open>
  constructor(config?: Partial<DataForSEOConfig>) {
    this.config = {
      login: config?.login || process.env.DATAFORSEO_LOGIN || '',
      password: config?.password || process.env.DATAFORSEO_PASSWORD || '',
      baseUrl: config?.baseUrl || DEFAULT_BASE_URL,
    };
    if (!this.config.login || !this.config.password) {
      throw new DataForSEOError('DataForSEO credentials not configured', 'AUTH_ERROR');
    }
    ...
  }
  \<close>
\<close>

definition new_DataForSEOClient ::
  "ProcessEnv \<Rightarrow> PartialDataForSEOConfig option \<Rightarrow> js_error + DataForSEOConfig" where
  "new_DataForSEOClient env config =
     (let this_config =
        \<lparr>DataForSEOConfig.login =
           str_or (Option.bind config PartialDataForSEOConfig.login)
             (str_or (DATAFORSEO_LOGIN env) []),
         password =
           str_or (Option.bind config PartialDataForSEOConfig.password)
             (str_or (DATAFORSEO_PASSWORD env) []),
         baseUrl = str_or (Option.bind config PartialDataForSEOConfig.baseUrl)
                     (js ''https://api.dataforseo.com/v3'')\<rparr>
      in if DataForSEOConfig.login this_config = [] \<or> DataForSEOConfig.password this_config = []
         then Inl (DataForSEOError (js ''DataForSEO credentials not configured'')
                     (js ''AUTH_ERROR'') None)
         else Inr this_config)"

record SERPParams =
  keyword :: jstring
  locationCode :: "real option"
  languageCode :: "jstring option"
  depth :: "real option"

record SERPTaskData =
  keyword :: jstring
  location_code :: real
  language_code :: jstring
  device :: jstring
  depth :: real

text \<open>
  \<^verbatim>\<open>
  async getSERPResults(params) {
    const taskData = [{ keyword: params.keyword, location_code: params.locationCode || 2840,
        language_code: params.languageCode || 'en', device: 'desktop',
        depth: params.depth || 10 }];
    const response = await this.request<SERPTaskResult>(
      '/serp/google/organic/live/advanced', 'POST', taskData);
    const result = response.tasks?.[0]?.result?.[0];
    if (!result) {
      return { keyword: params.keyword, totalResults: 0, items: [] };
    }
    const organicItems = result.items
      ?.filter((item) => item.type === 'organic')
      .slice(0, 10)
      .map((item, index) => ({ rank: index + 1, url: item.url, title: item.title,
        description: item.description || '', domain: item.domain })) || [];
    return { keyword: result.keyword, totalResults: result.se_results_count,
             items: organicItems };
  }
  \<close>
  \<open>request\<close> is the network call \<^verbatim>\<open>this.request\<close> at this endpoint: it yields the
  decoded response or throws.
\<close>

text \<open>\<^verbatim>\<open>response.tasks?.[0]?.result?.[0]\<close>.\<close>

definition first_result :: "'r DataForSEOResponse \<Rightarrow> 'r option" where
  "first_result response =
     Option.bind (Option.bind (Option.bind (tasks response) first_of) result) first_of"

definition organic_items :: "ProviderSERPItem list \<Rightarrow> SERPItem list" where
  "organic_items provider_items =
     map (\<lambda>(index, item).
            \<lparr>rank = index + 1,
             url = ProviderSERPItem.url item,
             title = ProviderSERPItem.title item,
             description = str_or (ProviderSERPItem.description item) [],
             domain = ProviderSERPItem.domain item\<rparr>)
       (enumerate 0
          (take 10 (filter (\<lambda>item. ProviderSERPItem.type item = js ''organic'') provider_items)))"

definition getSERPResults ::
  "(SERPTaskData list \<Rightarrow> js_error + SERPTaskResult DataForSEOResponse)
   \<Rightarrow> SERPParams \<Rightarrow> js_error + SERPResult" where
  "getSERPResults request params =
     (let taskData =
        [\<lparr>SERPTaskData.keyword = SERPParams.keyword params,
          location_code = num_or (locationCode params) 2840,
          language_code = str_or (languageCode params) (js ''en''),
          device = js ''desktop'',
          depth = num_or (SERPParams.depth params) 10\<rparr>]
      in case request taskData of
           Inl error \<Rightarrow> Inl error
         | Inr response \<Rightarrow>
             (case first_result response of
                None \<Rightarrow>
                  Inr \<lparr>SERPResult.keyword = SERPParams.keyword params, totalResults = 0,
                       items = []\<rparr>
              | Some result' \<Rightarrow>
                  let organicItems =
                    (case SERPTaskResult.items result' of
                       None \<Rightarrow> []
                     | Some provider_items \<Rightarrow> organic_items provider_items)
                  in Inr \<lparr>SERPResult.keyword = SERPTaskResult.keyword result',
                          totalResults = se_results_count result',
                          items = organicItems\<rparr>))"

record SuggestionParams =
  keyword :: jstring
  locationCode :: "real option"
  languageCode :: "jstring option"
  limit :: "real option"

record KeywordTaskData =
  keyword :: jstring
  location_code :: real
  language_code :: jstring
  limit :: real

text \<open>
  \<^verbatim>\<open>getKeywordSuggestions\<close> sends its task to the suggestions endpoint and returns
  \<^verbatim>\<open>response.tasks?.[0]?.result?.[0]?.items || []\<close>.
\<close>

definition getKeywordSuggestions ::
  "(KeywordTaskData list \<Rightarrow> js_error + SuggestionsResult DataForSEOResponse)
   \<Rightarrow> SuggestionParams \<Rightarrow> js_error + KeywordSuggestion list" where
  "getKeywordSuggestions request params =
     (let taskData =
        [\<lparr>KeywordTaskData.keyword = SuggestionParams.keyword params,
          location_code = num_or (SuggestionParams.locationCode params) 2840,
          language_code = str_or (SuggestionParams.languageCode params) (js ''en''),
          limit = num_or (SuggestionParams.limit params) 100\<rparr>]
      in case request taskData of
           Inl error \<Rightarrow> Inl error
         | Inr response \<Rightarrow>
             (case Option.bind (first_result response) SuggestionsResult.items of
                None \<Rightarrow> Inr []
              | Some suggestions \<Rightarrow> Inr suggestions))"

section \<open>What a run is given\<close>

text \<open>
  The prompt assemblers and system prompts of \<^verbatim>\<open>prompts/\<close> are pure text builders;
  the orchestrator only passes their results on. They enter the model as parameters, so
  every statement below holds for whatever text they produce.
\<close>

record Prompts =
  KEYWORD_RESEARCH_SYSTEM_PROMPT :: jstring
  buildKeywordResearchPrompt :: "jstring \<Rightarrow> jstring \<Rightarrow> jstring \<Rightarrow> jstring option \<Rightarrow> jstring"
  OUTLINE_SYSTEM_PROMPT :: jstring
  buildOutlinePrompt :: "KeywordResearchResult \<Rightarrow> InternalLink list option \<Rightarrow> jstring"
  ARTICLE_SYSTEM_PROMPT :: jstring
  buildArticlePrompt :: "OutlineResult \<Rightarrow> KeywordResearchResult \<Rightarrow> jstring"

text \<open>
  The services of the language runtime. \<^verbatim>\<open>JSON.parse\<close> either yields a value or
  throws (\<open>None\<close>); the program types the value as the interface it expects, and the
  model has one parser for each of the two interfaces. \<open>clock n\<close> is the \<open>n\<close>-th
  reading of the clock in a run.
\<close>

record Runtime =
  JSON_parse_KeywordResearchResult :: "jstring \<Rightarrow> KeywordResearchResult option"
  JSON_parse_OutlineResult :: "jstring \<Rightarrow> OutlineResult option"
  toLocaleString :: "real \<Rightarrow> jstring"
  toString :: "real \<Rightarrow> jstring"
  clock :: "nat \<Rightarrow> real"
  toISOString :: "real \<Rightarrow> jstring"
  valid_url :: "jstring \<Rightarrow> bool"

text \<open>
  The network. \<open>request_serp\<close> and \<open>request_suggestions\<close> are
  \<^verbatim>\<open>DataForSEOClient.request\<close> at the two endpoints, \<open>complete\<close> and \<open>stream\<close>
  the two calls of a generation client. A call yields its result or throws; a stream
  yields its fragments and then ends or throws.
\<close>

record world =
  process_env :: ProcessEnv
  request_serp ::
    "DataForSEOConfig \<Rightarrow> SERPTaskData list \<Rightarrow> js_error + SERPTaskResult DataForSEOResponse"
  request_suggestions ::
    "DataForSEOConfig \<Rightarrow> KeywordTaskData list
     \<Rightarrow> js_error + SuggestionsResult DataForSEOResponse"
  complete :: "AIClient \<Rightarrow> AICompletionRequest \<Rightarrow> js_error + AICompletionResponse"
  stream :: "AIClient \<Rightarrow> AICompletionRequest \<Rightarrow> jstring list \<times> js_error option"
  prompts :: Prompts
  runtime :: Runtime

section \<open>Response parsers\<close>

text \<open>
  \<^verbatim>\<open>
  private parseKeywordResearchResponse(content: string, topic: string) {
    try {
      const jsonMatch = content.match(/\{[\s\S]*\}/);
      if (jsonMatch) { return JSON.parse(jsonMatch[0]); }
    } catch (error) { console.error(...); }
    return { primaryKeyword: { keyword: topic, searchVolume: 1000, ... }, ... };
  }
  \<close>
\<close>

definition parseKeywordResearchResponse ::
  "(jstring \<Rightarrow> KeywordResearchResult option) \<Rightarrow> jstring \<Rightarrow> jstring \<Rightarrow> KeywordResearchResult"
  where
  "parseKeywordResearchResponse JSON_parse content' topic' =
     (case (case match_json_object content' of
              None \<Rightarrow> None
            | Some jsonMatch \<Rightarrow> JSON_parse jsonMatch) of
        Some parsed \<Rightarrow> parsed
      | None \<Rightarrow>
          \<lparr>KeywordResearchResult.primaryKeyword =
             \<lparr>PrimaryKeyword.keyword = topic',
              searchVolume = 1000,
              competition = js ''medium'',
              competitionLevel = medium,
              cpc = 1.5,
              intent = Intent.informational,
              aiCitationFormat = js ''comprehensive guide''\<rparr>,
           secondaryKeywords = [],
           longTailClusters = [],
           questions = [],
           contentStructure =
             \<lparr>ContentStructure.h1 = topic',
              metaTitle = topic',
              metaDescription = js ''Learn about '' @ topic',
              targetWordCount = 2500,
              sections = []\<rparr>,
           competitiveAnalysis =
             \<lparr>totalKeywordsDiscovered = 0,
              averageVolume = 0,
              intentDistribution =
                \<lparr>informational = 100, commercial = 0, transactional = 0\<rparr>,
              contentGaps = []\<rparr>\<rparr>)"

definition parseOutlineResponse ::
  "(jstring \<Rightarrow> OutlineResult option) \<Rightarrow> jstring \<Rightarrow> KeywordResearchResult \<Rightarrow> OutlineResult"
  where
  "parseOutlineResponse JSON_parse content' keywordResearch' =
     (case (case match_json_object content' of
              None \<Rightarrow> None
            | Some jsonMatch \<Rightarrow> JSON_parse jsonMatch) of
        Some parsed \<Rightarrow> parsed
      | None \<Rightarrow>
          \<lparr>OutlineResult.metadata =
             \<lparr>OutlineMetadata.primaryKeyword =
                PrimaryKeyword.keyword
                  (KeywordResearchResult.primaryKeyword keywordResearch'),
              h1 = ContentStructure.h1 (contentStructure keywordResearch'),
              metaTitle = ContentStructure.metaTitle (contentStructure keywordResearch'),
              metaDescription =
                ContentStructure.metaDescription (contentStructure keywordResearch'),
              targetWordCount =
                ContentStructure.targetWordCount (contentStructure keywordResearch')\<rparr>,
           keyTakeaway = \<lparr>mainAnswer = [], bullets = []\<rparr>,
           introduction = \<lparr>Paragraphs.paragraphs = []\<rparr>,
           sections = [],
           faq = [],
           conclusion = \<lparr>Paragraphs.paragraphs = []\<rparr>,
           citations = []\<rparr>)"

section \<open>The content generator agent\<close>

datatype Provider = openai | gemini

record ContentGeneratorConfig =
  aiProvider :: Provider

record ContentGeneratorAgent =
  dataForSEO :: DataForSEOConfig
  aiClient :: AIClient
  config :: ContentGeneratorConfig

text \<open>
  \<^verbatim>\<open>
  constructor(config?: Partial<ContentGeneratorConfig>) {
    this.config = { aiProvider: config?.aiProvider || 'openai' };
    this.dataForSEO = new DataForSEOClient();
    if (this.config.aiProvider === 'gemini') { this.aiClient = new GeminiClient(); }
    else { this.aiClient = new OpenAIClient(); }
  }
  \<close>
  The optional configuration with its one optional field is an optional provider.
\<close>

definition new_ContentGeneratorAgent ::
  "ProcessEnv \<Rightarrow> Provider option \<Rightarrow> js_error + ContentGeneratorAgent" where
  "new_ContentGeneratorAgent env config' =
     (let this_config = \<lparr>aiProvider = (case config' of None \<Rightarrow> openai | Some p \<Rightarrow> p)\<rparr>
      in case new_DataForSEOClient env None of
           Inl error \<Rightarrow> Inl error
         | Inr this_dataForSEO \<Rightarrow>
             if aiProvider this_config = gemini
             then (case new_GeminiClient env None of
                     Inl error \<Rightarrow> Inl error
                   | Inr client \<Rightarrow>
                       Inr \<lparr>dataForSEO = this_dataForSEO, aiClient = GeminiClient client,
                            config = this_config\<rparr>)
             else (case new_OpenAIClient env None of
                     Inl error \<Rightarrow> Inl error
                   | Inr client \<Rightarrow>
                       Inr \<lparr>dataForSEO = this_dataForSEO, aiClient = OpenAIClient client,
                            config = this_config\<rparr>))"

text \<open>\<^verbatim>\<open>sections.join('\n')\<close>.\<close>

fun join :: "jstring \<Rightarrow> jstring list \<Rightarrow> jstring" where
  "join sep [] = []"
| "join sep [x] = x"
| "join sep (x # y # ys) = x @ sep @ join sep (y # ys)"

text \<open>
  \<^verbatim>\<open>
  private async analyzeSERP(topic: string): Promise<string> {
    try {
      const serpResult = await this.dataForSEO.getSERPResults({ keyword: topic });
      const sections: string[] = ['### SERP Analysis'];
      sections.push(`**Keyword:** ${serpResult.keyword}`);
      sections.push(`**Total Results:** ${serpResult.totalResults.toLocaleString()}`);
      if (serpResult.items.length > 0) {
        sections.push('\n**Top 10 Results:**');
        serpResult.items.forEach((item, i) => {
          sections.push(`${i + 1}. **${item.title}**`);
          sections.push(`   - URL: ${item.url}`);
          sections.push(`   - Domain: ${item.domain}`);
          if (item.description) {
            sections.push(`   - Description: ${item.description.substring(0, 150)}...`);
          }
        });
      }
      return sections.join('\n');
    } catch (error) {
      console.error('SERP analysis failed:', error);
      return 'SERP data unavailable.';
    }
  }
  \<close>
\<close>

definition serp_item_lines :: "nat \<times> SERPItem \<Rightarrow> jstring list" where
  "serp_item_lines = (\<lambda>(i, item).
     [show_nat (i + 1) @ js ''. **'' @ SERPItem.title item @ js ''**'',
      js ''   - URL: '' @ SERPItem.url item,
      js ''   - Domain: '' @ SERPItem.domain item]
     @ (if SERPItem.description item \<noteq> []
        then [js ''   - Description: '' @ take 150 (SERPItem.description item) @ js ''...'']
        else []))"

definition analyzeSERP :: "world \<Rightarrow> ContentGeneratorAgent \<Rightarrow> jstring \<Rightarrow> jstring" where
  "analyzeSERP w this topic' =
     (case getSERPResults (request_serp w (dataForSEO this))
             \<lparr>SERPParams.keyword = topic', locationCode = None, languageCode = None,
              depth = None\<rparr> of
        Inl error \<Rightarrow> js ''SERP data unavailable.''
      | Inr serpResult \<Rightarrow>
          join (js ''\<newline>'')
            ([js ''### SERP Analysis'',
              js ''**Keyword:** '' @ SERPResult.keyword serpResult,
              js ''**Total Results:** ''
                @ toLocaleString (runtime w) (totalResults serpResult)]
             @ (if length (SERPResult.items serpResult) > 0
                then js ''\<newline>**Top 10 Results:**''
                     # concat (map serp_item_lines (enumerate 0 (SERPResult.items serpResult)))
                else [])))"

text \<open>
  \<^verbatim>\<open>formatKeywordSuggestions\<close>: a header, the count, and the thirty suggestions of
  largest volume, one line each; the sort is stable.
\<close>

definition suggestion_line :: "Runtime \<Rightarrow> nat \<times> KeywordSuggestion \<Rightarrow> jstring" where
  "suggestion_line rt = (\<lambda>(i, kw).
     show_nat (i + 1) @ js ''. \"'' @ KeywordSuggestion.keyword kw @ js ''\" - ''
     @ toString rt (search_volume kw) @ js ''/month, '' @ competition_level kw
     @ js '' competition, KD: '' @ toString rt (keyword_difficulty kw))"

definition formatKeywordSuggestions :: "Runtime \<Rightarrow> KeywordSuggestion list \<Rightarrow> jstring" where
  "formatKeywordSuggestions rt suggestions =
     join (js ''\<newline>'')
       ([js ''### Keyword Suggestions'',
         js ''**Total Keywords Found:** '' @ show_nat (length suggestions)]
        @ (if length suggestions > 0
           then js ''\<newline>**Top Keywords by Volume:**''
                # map (suggestion_line rt)
                    (enumerate 0 (take 30 (sort_key (\<lambda>kw. - search_volume kw) suggestions)))
           else []))"

text \<open>
  \<^verbatim>\<open>performKeywordResearch\<close>: the suggestions fetch is guarded like the SERP fetch;
  the generation call is not, so its error leaves the method.
\<close>

definition performKeywordResearch ::
  "world \<Rightarrow> ContentGeneratorAgent \<Rightarrow> jstring \<Rightarrow> jstring \<Rightarrow> jstring option
   \<Rightarrow> js_error + KeywordResearchResult \<times> real" where
  "performKeywordResearch w this topic' serpData targetAudience' =
     (let keywordData =
        (case getKeywordSuggestions (request_suggestions w (dataForSEO this))
                \<lparr>SuggestionParams.keyword = topic', locationCode = None,
                 languageCode = None, limit = None\<rparr> of
           Inl error \<Rightarrow> js ''Keyword suggestions unavailable.''
         | Inr suggestions \<Rightarrow> formatKeywordSuggestions (runtime w) suggestions);
          prompt =
            buildKeywordResearchPrompt (prompts w) topic' serpData keywordData targetAudience'
      in case complete w (aiClient this)
                \<lparr>messages =
                   [\<lparr>role = system,
                     content = KEYWORD_RESEARCH_SYSTEM_PROMPT (prompts w)\<rparr>,
                    \<lparr>role = user, content = prompt\<rparr>],
                 maxTokens = None,
                 temperature = Some 0.3\<rparr> of
           Inl error \<Rightarrow> Inl error
         | Inr response \<Rightarrow>
             Inr (parseKeywordResearchResponse
                    (JSON_parse_KeywordResearchResult (runtime w))
                    (AICompletionResponse.content response) topic',
                  AICompletionResponse.tokensUsed response))"

definition generateOutline ::
  "world \<Rightarrow> ContentGeneratorAgent \<Rightarrow> KeywordResearchResult \<Rightarrow> InternalLink list option
   \<Rightarrow> js_error + OutlineResult \<times> real" where
  "generateOutline w this keywordResearch' internalLinks' =
     (let prompt = buildOutlinePrompt (prompts w) keywordResearch' internalLinks'
      in case complete w (aiClient this)
                \<lparr>messages =
                   [\<lparr>role = system, content = OUTLINE_SYSTEM_PROMPT (prompts w)\<rparr>,
                    \<lparr>role = user, content = prompt\<rparr>],
                 maxTokens = None,
                 temperature = Some 0.3\<rparr> of
           Inl error \<Rightarrow> Inl error
         | Inr response \<Rightarrow>
             Inr (parseOutlineResponse (JSON_parse_OutlineResult (runtime w))
                    (AICompletionResponse.content response) keywordResearch',
                  AICompletionResponse.tokensUsed response))"

definition article_request ::
  "world \<Rightarrow> OutlineResult \<Rightarrow> KeywordResearchResult \<Rightarrow> AICompletionRequest" where
  "article_request w outline' keywordResearch' =
     \<lparr>messages =
        [\<lparr>role = system, content = ARTICLE_SYSTEM_PROMPT (prompts w)\<rparr>,
         \<lparr>role = user, content = buildArticlePrompt (prompts w) outline' keywordResearch'\<rparr>],
      maxTokens = Some 8000,
      temperature = Some 0.7\<rparr>"

definition writeArticle ::
  "world \<Rightarrow> ContentGeneratorAgent \<Rightarrow> OutlineResult \<Rightarrow> KeywordResearchResult
   \<Rightarrow> js_error + jstring \<times> real" where
  "writeArticle w this outline' keywordResearch' =
     (case complete w (aiClient this) (article_request w outline' keywordResearch') of
        Inl error \<Rightarrow> Inl error
      | Inr response \<Rightarrow>
          Inr (AICompletionResponse.content response,
               AICompletionResponse.tokensUsed response))"

text \<open>
  \<^verbatim>\<open>writeArticleStream\<close> re-yields every fragment of the client's stream and throws
  what it throws.
\<close>

definition writeArticleStream ::
  "world \<Rightarrow> ContentGeneratorAgent \<Rightarrow> OutlineResult \<Rightarrow> KeywordResearchResult
   \<Rightarrow> jstring list \<times> js_error option" where
  "writeArticleStream w this outline' keywordResearch' =
     stream w (aiClient this) (article_request w outline' keywordResearch')"

section \<open>Buffered run\<close>

text \<open>
  Both run methods end with the same object literal: the references and the word count
  are computed from the article text, the reading time from the word count, and the
  internal links of the input are echoed with the placement \<^verbatim>\<open>body\<close>.
\<close>

definition result_data ::
  "ArticleGenerationInput \<Rightarrow> OutlineResult \<Rightarrow> KeywordResearchResult \<Rightarrow> jstring \<Rightarrow> OutputData"
  where
  "result_data input outline' keywordResearch' articleContent =
     (let references' = extractReferences articleContent;
          wordCount' = countWords articleContent;
          readingTime' = readingTimeOf wordCount'
      in \<lparr>OutputData.article =
            \<lparr>ArticleResult.title = OutlineMetadata.h1 (OutlineResult.metadata outline'),
             content = articleContent,
             wordCount = wordCount',
             readingTime = readingTime'\<rparr>,
          seo =
            \<lparr>Seo.metaTitle = OutlineMetadata.metaTitle (OutlineResult.metadata outline'),
             metaDescription =
               OutlineMetadata.metaDescription (OutlineResult.metadata outline'),
             primaryKeyword =
               PrimaryKeyword.keyword (KeywordResearchResult.primaryKeyword keywordResearch'),
             secondaryKeywords =
               map SecondaryKeyword.keyword
                 (KeywordResearchResult.secondaryKeywords keywordResearch')\<rparr>,
          outline = outline',
          keywordResearch = keywordResearch',
          references = references',
          internalLinks =
            (case ArticleGenerationInput.internalLinks input of
               None \<Rightarrow> []
             | Some links \<Rightarrow>
                 map (\<lambda>link. \<lparr>anchorText = InternalLink.title link,
                                url = InternalLink.url link,
                                placement = js ''body''\<rparr>) links)\<rparr>)"

text \<open>
  \<^verbatim>\<open>generate\<close>: the four phases in order. The first cannot fail; an error of one of
  the three generation phases leaves the method at once.
\<close>

definition generate ::
  "world \<Rightarrow> ContentGeneratorAgent \<Rightarrow> ArticleGenerationInput
   \<Rightarrow> js_error + ArticleGenerationOutput" where
  "generate w this input =
     (let startTime = clock (runtime w) 0;
          serpData = analyzeSERP w this (topic input)
      in case performKeywordResearch w this (topic input) serpData (targetAudience input) of
           Inl error \<Rightarrow> Inl error
         | Inr (keywordResearch', kwTokens) \<Rightarrow>
             (case generateOutline w this keywordResearch'
                     (ArticleGenerationInput.internalLinks input) of
                Inl error \<Rightarrow> Inl error
              | Inr (outline', outlineTokens) \<Rightarrow>
                  (case writeArticle w this outline' keywordResearch' of
                     Inl error \<Rightarrow> Inl error
                   | Inr (articleContent, articleTokens) \<Rightarrow>
                       Inr \<lparr>ArticleGenerationOutput.success = True,
                            data = result_data input outline' keywordResearch' articleContent,
                            metadata =
                              \<lparr>generatedAt = toISOString (runtime w) (clock (runtime w) 1),
                               processingTime = clock (runtime w) 2 - startTime,
                               tokensUsed =
                                 \<lparr>TokensUsed.keywordResearch = kwTokens,
                                  outline = outlineTokens,
                                  article = articleTokens\<rparr>\<rparr>\<rparr>)))"

section \<open>Streaming run\<close>

text \<open>
  An asynchronous generator, run to its end, has yielded a sequence of events and then
  either returned or thrown. \<open>yield\<close> emits one event, \<open>await\<close> takes the outcome of
  a call, and \<open>then_gen\<close> continues after a step that did not throw.
\<close>

type_synonym 'a generator = "StreamEvent list \<times> (js_error + 'a)"

definition yield :: "StreamEvent \<Rightarrow> unit generator" where
  "yield event = ([event], Inr ())"

definition await :: "js_error + 'a \<Rightarrow> 'a generator" where
  "await outcome = ([], outcome)"

definition then_gen :: "'a generator \<Rightarrow> ('a \<Rightarrow> 'b generator) \<Rightarrow> 'b generator" where
  "then_gen step rest =
     (case step of
        (events, Inl error) \<Rightarrow> (events, Inl error)
      | (events, Inr x) \<Rightarrow> (case rest x of (events', outcome) \<Rightarrow> (events @ events', outcome)))"

definition progress_step :: "jstring \<Rightarrow> nat \<Rightarrow> jstring \<Rightarrow> unit generator" where
  "progress_step phase' percent message' =
     yield (progress_event \<lparr>phase = phase', progress = percent, message = message'\<rparr>)"

text \<open>
  \<^verbatim>\<open>
  let articleContent = '';
  for await (const chunk of this.writeArticleStream(outline, keywordResearch)) {
    articleContent += chunk;
    yield { type: 'chunk', data: { content: chunk } };
  }
  \<close>
\<close>

fun for_await_chunks :: "jstring \<Rightarrow> jstring list \<Rightarrow> StreamEvent list \<times> jstring" where
  "for_await_chunks articleContent [] = ([], articleContent)"
| "for_await_chunks articleContent (chunk # chunks) =
     (case for_await_chunks (articleContent @ chunk) chunks of
        (events, final) \<Rightarrow> (chunk_event \<lparr>ChunkData.content = chunk\<rparr> # events, final))"

definition stream_article ::
  "world \<Rightarrow> ContentGeneratorAgent \<Rightarrow> OutlineResult \<Rightarrow> KeywordResearchResult
   \<Rightarrow> jstring generator" where
  "stream_article w this outline' keywordResearch' =
     (case writeArticleStream w this outline' keywordResearch' of
        (chunks, thrown) \<Rightarrow>
          (case for_await_chunks [] chunks of
             (events, articleContent) \<Rightarrow>
               (events, case thrown of None \<Rightarrow> Inr articleContent | Some error \<Rightarrow> Inl error)))"

text \<open>
  \<^verbatim>\<open>generateStream\<close>: the same phases, a progress event before and after the two
  structured phases and before and after the article, the fragments forwarded as chunk
  events, and the complete event last. The article token count is
  \<^verbatim>\<open>Math.ceil(articleContent.length / 4)\<close>.
\<close>

definition generateStream ::
  "world \<Rightarrow> ContentGeneratorAgent \<Rightarrow> ArticleGenerationInput \<Rightarrow> unit generator" where
  "generateStream w this input =
     (let startTime = clock (runtime w) 0 in
      then_gen (progress_step (js ''serp_analysis'') 5 (js ''Analyzing SERP results...''))
        (\<lambda>_.
      let serpData = analyzeSERP w this (topic input) in
      then_gen (progress_step (js ''keyword_research'') 20
                  (js ''Performing keyword research...''))
        (\<lambda>_.
      then_gen (await (performKeywordResearch w this (topic input) serpData
                         (targetAudience input)))
        (\<lambda>(keywordResearch', kwTokens).
      then_gen (progress_step (js ''keyword_research'') 35 (js ''Keyword research complete''))
        (\<lambda>_.
      then_gen (progress_step (js ''outline'') 40 (js ''Generating article outline...''))
        (\<lambda>_.
      then_gen (await (generateOutline w this keywordResearch'
                         (ArticleGenerationInput.internalLinks input)))
        (\<lambda>(outline', outlineTokens).
      then_gen (progress_step (js ''outline'') 55 (js ''Outline complete''))
        (\<lambda>_.
      then_gen (progress_step (js ''article'') 60 (js ''Writing article...''))
        (\<lambda>_.
      then_gen (stream_article w this outline' keywordResearch')
        (\<lambda>articleContent.
      let articleTokens = real (nat \<lceil>real (length articleContent) / 4\<rceil>) in
      then_gen (progress_step (js ''article'') 95 (js ''Finalizing...''))
        (\<lambda>_.
      yield (complete_event
        \<lparr>CompleteData.success = True,
         data = result_data input outline' keywordResearch' articleContent,
         metadata =
           \<lparr>generatedAt = toISOString (runtime w) (clock (runtime w) 1),
            processingTime = clock (runtime w) 2 - startTime,
            tokensUsed =
              \<lparr>TokensUsed.keywordResearch = kwTokens,
               outline = outlineTokens,
               article = articleTokens\<rparr>\<rparr>\<rparr>))))))))))))"

section \<open>Routes\<close>

text \<open>
  A request carries its body and the \<^verbatim>\<open>provider\<close> query parameter. The schema
  accepts a body whose topic is not empty, whose target word count, when given, lies
  between 500 and 10000, and whose link URLs are well formed; it fills in the two flags.
\<close>

record HttpRequest =
  body :: ArticleGenerationInput
  query_provider :: "jstring option"

definition safeParse :: "Runtime \<Rightarrow> ArticleGenerationInput \<Rightarrow> ArticleGenerationInput option"
  where
  "safeParse rt b =
     (if length (topic b) \<ge> 1
         \<and> (case ArticleGenerationInput.targetWordCount b of
              None \<Rightarrow> True
            | Some n \<Rightarrow> 500 \<le> n \<and> n \<le> 10000)
         \<and> (case ArticleGenerationInput.internalLinks b of
              None \<Rightarrow> True
            | Some links \<Rightarrow> list_all (\<lambda>link. valid_url rt (InternalLink.url link)) links)
      then Some (b\<lparr>includeKeywordResearch :=
                      Some (case includeKeywordResearch b of None \<Rightarrow> True | Some f \<Rightarrow> f),
                    includeFAQ :=
                      Some (case includeFAQ b of None \<Rightarrow> True | Some f \<Rightarrow> f)\<rparr>)
      else None)"

datatype ResponseBody =
    result_body ArticleGenerationOutput
  | failure_body (code: jstring) (message: jstring)

datatype HttpResponse =
    json_response nat ResponseBody
  | event_stream "StreamEvent list"

definition provider_of :: "HttpRequest \<Rightarrow> Provider" where
  "provider_of req = (if query_provider req = Some (js ''gemini'') then gemini else openai)"

text \<open>
  \<^verbatim>\<open>POST /generate\<close>: the validation answer, the result, or the answer of the catch
  block.
\<close>

definition post_generate :: "world \<Rightarrow> HttpRequest \<Rightarrow> HttpResponse" where
  "post_generate w req =
     (case safeParse (runtime w) (body req) of
        None \<Rightarrow>
          json_response 400 (failure_body (js ''VALIDATION_ERROR'') (js ''Invalid request body''))
      | Some input \<Rightarrow>
          (case new_ContentGeneratorAgent (process_env w) (Some (provider_of req)) of
             Inl error \<Rightarrow>
               json_response 500
                 (failure_body (js ''GENERATION_ERROR'') (js_error.message error))
           | Inr agent \<Rightarrow>
               (case generate w agent input of
                  Inl error \<Rightarrow>
                    json_response 500
                      (failure_body (js ''GENERATION_ERROR'') (js_error.message error))
                | Inr output \<Rightarrow> json_response 200 (result_body output))))"

text \<open>
  \<^verbatim>\<open>
  res.flushHeaders();
  const agent = new ContentGeneratorAgent({ aiProvider });
  for await (const event of agent.generateStream(input)) {
    res.write(`event: ${event.type}\n`);
    res.write(`data: ${JSON.stringify(event.data)}\n\n`);
  }
  res.end();
  } catch (error) {
    if (res.headersSent) {
      res.write(`event: error\n`);
      res.write(`data: ${JSON.stringify({ message: ..., code: 'GENERATION_ERROR' })}\n\n`);
      res.end();
    } else { return res.status(500).json(...); }
  }
  \<close>
  Once the body is valid the headers are flushed, so whatever is thrown afterwards, by
  the constructor or by the generator, is answered by the first branch of the catch
  block: one error event is written after the events already written.
\<close>

definition caught_event :: "js_error \<Rightarrow> StreamEvent" where
  "caught_event error =
     error_event \<lparr>ErrorData.message = js_error.message error,
                  code = js ''GENERATION_ERROR''\<rparr>"

definition post_generate_stream :: "world \<Rightarrow> HttpRequest \<Rightarrow> HttpResponse" where
  "post_generate_stream w req =
     (case safeParse (runtime w) (body req) of
        None \<Rightarrow>
          json_response 400 (failure_body (js ''VALIDATION_ERROR'') (js ''Invalid request body''))
      | Some input \<Rightarrow>
          (case new_ContentGeneratorAgent (process_env w) (Some (provider_of req)) of
             Inl error \<Rightarrow> event_stream [caught_event error]
           | Inr agent \<Rightarrow>
               (case generateStream w agent input of
                  (events, Inl error) \<Rightarrow> event_stream (events @ [caught_event error])
                | (events, Inr _) \<Rightarrow> event_stream events)))"

section \<open>Observing an event stream\<close>

fun progress_values :: "StreamEvent list \<Rightarrow> nat list" where
  "progress_values [] = []"
| "progress_values (progress_event d # events) = progress d # progress_values events"
| "progress_values (_ # events) = progress_values events"

fun chunk_payloads :: "StreamEvent list \<Rightarrow> jstring list" where
  "chunk_payloads [] = []"
| "chunk_payloads (chunk_event d # events) = ChunkData.content d # chunk_payloads events"
| "chunk_payloads (_ # events) = chunk_payloads events"

fun completions :: "StreamEvent list \<Rightarrow> CompleteData list" where
  "completions [] = []"
| "completions (complete_event d # events) = d # completions events"
| "completions (_ # events) = completions events"

fun is_terminal :: "StreamEvent \<Rightarrow> bool" where
  "is_terminal (complete_event _) = True"
| "is_terminal (error_event _) = True"
| "is_terminal _ = False"

text \<open>
  The reading of the specification under which a text has a References section: one of
  its lines starts with the heading.
\<close>

definition has_references_heading_line :: "jstring \<Rightarrow> bool" where
  "has_references_heading_line content' \<longleftrightarrow>
     list_ex (starts_with_ci (js ''## References'')) (split_lines content')"

section \<open>A concrete run\<close>

text \<open>
  A world in which all credentials are set, the research provider rejects them on every
  call, the generation provider answers every request with the same markdown article
  (which holds no JSON object) and streams it in two fragments.
\<close>

definition example_article :: jstring where
  "example_article =
     js ''# Guide\<newline>\<newline>Some *bold* text.\<newline>\<newline>## References\<newline>1. [Site](http://a.b)''"

definition example_fragments :: "jstring list" where
  "example_fragments =
     [js ''# Guide\<newline>\<newline>Some *bo'',
      js ''ld* text.\<newline>\<newline>## References\<newline>1. [Site](http://a.b)'']"

definition example_env :: ProcessEnv where
  "example_env =
     \<lparr>DATAFORSEO_LOGIN = Some (js ''login''),
      DATAFORSEO_PASSWORD = Some (js ''password''),
      OPENAI_API_KEY = Some (js ''sk-test''),
      GOOGLE_AI_API_KEY = None\<rparr>"

definition example_prompts :: Prompts where
  "example_prompts =
     \<lparr>KEYWORD_RESEARCH_SYSTEM_PROMPT = js ''keywords'',
      buildKeywordResearchPrompt = (\<lambda>topic' serpData keywordData audience. serpData),
      OUTLINE_SYSTEM_PROMPT = js ''outline'',
      buildOutlinePrompt = (\<lambda>keywordResearch' links. []),
      ARTICLE_SYSTEM_PROMPT = js ''article'',
      buildArticlePrompt = (\<lambda>outline' keywordResearch'. [])\<rparr>"

definition example_runtime :: Runtime where
  "example_runtime =
     \<lparr>JSON_parse_KeywordResearchResult = (\<lambda>text. None),
      JSON_parse_OutlineResult = (\<lambda>text. None),
      toLocaleString = (\<lambda>n. []),
      toString = (\<lambda>n. []),
      clock = (\<lambda>n. real n),
      toISOString = (\<lambda>t. []),
      valid_url = (\<lambda>u. True)\<rparr>"

definition example_world :: world where
  "example_world =
     \<lparr>process_env = example_env,
      request_serp =
        (\<lambda>client taskData.
           Inl (DataForSEOError (js ''Invalid credentials'') (js ''AUTH_ERROR'') (Some 401))),
      request_suggestions = (\<lambda>client taskData. Inr \<lparr>tasks = None\<rparr>),
      complete =
        (\<lambda>client request.
           Inr \<lparr>AICompletionResponse.content = example_article, tokensUsed = 100\<rparr>),
      stream = (\<lambda>client request. (example_fragments, None)),
      prompts = example_prompts,
      runtime = example_runtime\<rparr>"

definition example_agent :: ContentGeneratorAgent where
  "example_agent =
     \<lparr>dataForSEO =
        \<lparr>DataForSEOConfig.login = js ''login'', password = js ''password'',
         baseUrl = js ''https://api.dataforseo.com/v3''\<rparr>,
      aiClient =
        OpenAIClient
          \<lparr>OpenAIConfig.apiKey = js ''sk-test'', model = js ''gpt-4-turbo-preview'',
           maxTokens = 4096, temperature = 0.7\<rparr>,
      config = \<lparr>aiProvider = openai\<rparr>\<rparr>"

definition example_input :: ArticleGenerationInput where
  "example_input =
     \<lparr>topic = js ''seo'', targetAudience = None, contentType = None,
      targetWordCount = None, includeKeywordResearch = None, includeFAQ = None,
      internalLinks = None\<rparr>"

definition example_request :: HttpRequest where
  "example_request = \<lparr>body = example_input, query_provider = None\<rparr>"

text \<open>A provider response with two organic entries among four.\<close>

definition example_provider_items :: "ProviderSERPItem list" where
  "example_provider_items =
     [\<lparr>ProviderSERPItem.type = js ''paid'', rank_group = 1, rank_absolute = 1,
       domain = js ''ads.example'', title = js ''Ad'', url = js ''https://ads.example'',
       description = None\<rparr>,
      \<lparr>ProviderSERPItem.type = js ''organic'', rank_group = 1, rank_absolute = 2,
       domain = js ''a.example'', title = js ''A'', url = js ''https://a.example'',
       description = Some (js ''first'')\<rparr>,
      \<lparr>ProviderSERPItem.type = js ''people_also_ask'', rank_group = 1, rank_absolute = 3,
       domain = [], title = js ''Questions'', url = [], description = None\<rparr>,
      \<lparr>ProviderSERPItem.type = js ''organic'', rank_group = 2, rank_absolute = 4,
       domain = js ''b.example'', title = js ''B'', url = js ''https://b.example'',
       description = None\<rparr>]"

definition example_serp_result :: SERPTaskResult where
  "example_serp_result =
     \<lparr>SERPTaskResult.keyword = js ''seo'', se_results_count = 1000,
      items = Some example_provider_items\<rparr>"

definition example_serp_response :: "SERPTaskResult DataForSEOResponse" where
  "example_serp_response = \<lparr>tasks = Some [\<lparr>result = Some [example_serp_result]\<rparr>]\<rparr>"

definition example_serp_params :: SERPParams where
  "example_serp_params =
     \<lparr>SERPParams.keyword = js ''seo tips'', locationCode = None, languageCode = None,
      depth = None\<rparr>"


text \<open>
  The heading text occurs in a text, letter case ignored, when some suffix of the text
  starts with it.
\<close>

fun occurs_ci :: "jstring \<Rightarrow> jstring \<Rightarrow> bool" where
  "occurs_ci pat [] = starts_with_ci pat []"
| "occurs_ci pat (c # cs) = (starts_with_ci pat (c # cs) \<or> occurs_ci pat cs)"


definition example_inline_heading :: jstring where
  "example_inline_heading = js ''see ## references\<newline>1. [a](b)''"

section \<open>Properties\<close>

lemma word_starts_dropWhile_space:
  "word_starts True (dropWhile is_space s) = word_starts True s"
  by (induction s) auto

lemma word_starts_token:
  "word_starts prev s =
     (if prev \<and> takeWhile (\<lambda>c. \<not> is_space c) s \<noteq> [] then 1 else 0)
      + word_starts True (dropWhile (\<lambda>c. \<not> is_space c) s)"
proof (induction s arbitrary: prev)
  case Nil
  show ?case by simp
next
  case (Cons c cs)
  show ?case
  proof (cases "is_space c")
    case True
    then show ?thesis by simp
  next
    case False
    then show ?thesis
      using Cons.IH [of False] by simp
  qed
qed

lemma split_whitespace_count:
  "length (filter (\<lambda>word. length word > 0) (split_whitespace s)) = word_starts True s"
proof (induction s rule: split_whitespace.induct)
  case (1 s)
  let ?tok = "takeWhile (\<lambda>c. \<not> is_space c) s"
  let ?rest = "dropWhile (\<lambda>c. \<not> is_space c) s"
  show ?case
  proof (cases "?rest = []")
    case True
    have "split_whitespace s =
            (if ?rest = [] then [?tok] else ?tok # split_whitespace (dropWhile is_space ?rest))"
      by (rule split_whitespace.simps [unfolded Let_def])
    with True have "split_whitespace s = [?tok]"
      by (simp only: if_True simp_thms)
    moreover have "word_starts True s = (if ?tok \<noteq> [] then 1 else 0)"
      using word_starts_token [of True s] True by simp
    ultimately show ?thesis by simp
  next
    case False
    have "split_whitespace s =
            (if ?rest = [] then [?tok] else ?tok # split_whitespace (dropWhile is_space ?rest))"
      by (rule split_whitespace.simps [unfolded Let_def])
    with False have split:
      "split_whitespace s = ?tok # split_whitespace (dropWhile is_space ?rest)"
      by (simp only: if_False)
    have ih: "length (filter (\<lambda>word. length word > 0)
                 (split_whitespace (dropWhile is_space ?rest)))
              = word_starts True (dropWhile is_space ?rest)"
      using "1.IH" [OF refl refl False] .
    have ws: "word_starts True s = (if ?tok \<noteq> [] then 1 else 0) + word_starts True ?rest"
      by (rule word_starts_token [of True s, simplified])
    show ?thesis
      unfolding split ws using ih by (simp add: word_starts_dropWhile_space)
  qed
qed

lemma countWords_spec: "countWords text = spec_word_count text"
  unfolding countWords_def spec_word_count_def by (rule split_whitespace_count)

lemma ceiling_div_200: "nat \<lceil>real n / 200\<rceil> = (n + 199) div 200"
proof -
  have "\<lceil>real n / 200\<rceil> = \<lceil>real_of_int (int n) / real_of_int 200\<rceil>"
    by simp
  also have "\<dots> = - ((- int n) div 200)"
    by (simp only: ceiling_divide_eq_div)
  finally show ?thesis
    by (simp add: nat_eq_iff) linarith
qed


subsection \<open>Constructors of the generation clients\<close>


lemma new_OpenAIClient_key:
  "new_OpenAIClient env cfg = Inr c \<Longrightarrow> OpenAIConfig.apiKey c \<noteq> []"
  by (auto simp: new_OpenAIClient_def Let_def split: if_splits)

lemma new_GeminiClient_key:
  "new_GeminiClient env cfg = Inr c \<Longrightarrow> GeminiConfig.apiKey c \<noteq> []"
  by (auto simp: new_GeminiClient_def Let_def split: if_splits)

lemma new_OpenAIClient_with_key:
  "key_available (OPENAI_API_KEY env) \<Longrightarrow> \<exists>c. new_OpenAIClient env None = Inr c"
  by (cases "OPENAI_API_KEY env")
     (auto simp: new_OpenAIClient_def key_available_def str_or_def Let_def)

lemma agent_client_key:
  "new_ContentGeneratorAgent env cfg = Inr agent \<Longrightarrow> client_key (aiClient agent) \<noteq> []"
  by (auto simp: new_ContentGeneratorAgent_def Let_def
           split: sum.splits if_splits dest: new_OpenAIClient_key new_GeminiClient_key)





subsection \<open>Ranked results\<close>

lemma map_enumerate_index:
  "map (\<lambda>p. h (fst p)) (enumerate n xs) = map h [n..<n + length xs]"
proof -
  have "map fst (enumerate n xs) = [n..<n + length xs]"
    by (simp add: enumerate_eq_zip)
  then have "map h (map fst (enumerate n xs)) = map h [n..<n + length xs]"
    by (rule arg_cong)
  then show ?thesis
    by (simp only: map_map comp_def)
qed

lemma map_enumerate_value:
  "map (\<lambda>p. h (snd p)) (enumerate n xs) = map h xs"
  by (induction xs arbitrary: n) simp_all

lemma organic_items_length:
  "length (organic_items its) =
     min 10 (length (filter (\<lambda>item. ProviderSERPItem.type item = js ''organic'') its))"
  by (simp add: organic_items_def)

lemma organic_items_rank:
  "map rank (organic_items its) = [1..<Suc (length (organic_items its))]"
proof -
  let ?kept = "take 10 (filter (\<lambda>item. ProviderSERPItem.type item = js ''organic'') its)"
  have len: "length (organic_items its) = length ?kept"
    by (simp add: organic_items_def)
  have "map rank (organic_items its) = map (\<lambda>p. Suc (fst p)) (enumerate 0 ?kept)"
    by (simp add: organic_items_def case_prod_beta comp_def)
  also have "\<dots> = map Suc [0..<0 + length ?kept]"
    by (rule map_enumerate_index)
  also have "\<dots> = [1..<Suc (length ?kept)]"
    by (simp only: map_Suc_upt One_nat_def add_0)
  finally show ?thesis
    by (simp only: len)
qed

lemma organic_items_entries:
  "map SERPItem.url (organic_items its) =
     map ProviderSERPItem.url
       (take 10 (filter (\<lambda>item. ProviderSERPItem.type item = js ''organic'') its))"
proof -
  let ?kept = "take 10 (filter (\<lambda>item. ProviderSERPItem.type item = js ''organic'') its)"
  have "map SERPItem.url (organic_items its)
        = map (\<lambda>p. ProviderSERPItem.url (snd p)) (enumerate 0 ?kept)"
    by (simp add: organic_items_def case_prod_beta comp_def)
  also have "\<dots> = map ProviderSERPItem.url ?kept"
    by (rule map_enumerate_value)
  finally show ?thesis .
qed

lemma organic_items_renumbered:
  "organic_items (map (\<lambda>item. item\<lparr>rank_absolute := f item, rank_group := g item\<rparr>) its)
   = organic_items its"
  by (simp add: organic_items_def filter_map comp_def take_map enumerate_eq_zip zip_map2
        case_prod_beta)

text \<open>
  C7. For every provider response: when it holds no result object the fetch returns the
  requested keyword, zero results and no items; otherwise the returned items are the
  first ten entries of type \<^verbatim>\<open>organic\<close>, the filter applied before the cut, each
  with its 1-based position in that list as rank, and changing the provider's own rank
  numbers changes nothing.
\<close>

theorem getSERPResults_organic_top10:
  "(first_result response = None \<longrightarrow>
      getSERPResults (\<lambda>taskData. Inr response) params =
        Inr \<lparr>SERPResult.keyword = SERPParams.keyword params, totalResults = 0, items = []\<rparr>)
   \<and> (first_result response = Some r \<and> SERPTaskResult.items r = Some its \<longrightarrow>
      (\<exists>snapshot.
         getSERPResults (\<lambda>taskData. Inr response) params = Inr snapshot
         \<and> SERPResult.items snapshot = organic_items its
         \<and> length (SERPResult.items snapshot) =
             min 10 (length (filter (\<lambda>item. ProviderSERPItem.type item = js ''organic'') its))
         \<and> map SERPItem.url (SERPResult.items snapshot) =
             map ProviderSERPItem.url
               (take 10 (filter (\<lambda>item. ProviderSERPItem.type item = js ''organic'') its))
         \<and> map rank (SERPResult.items snapshot) =
             [1..<Suc (length (SERPResult.items snapshot))]
         \<and> organic_items
             (map (\<lambda>item. item\<lparr>rank_absolute := f item, rank_group := g item\<rparr>) its)
            = SERPResult.items snapshot))"
proof (intro conjI impI)
  assume "first_result response = None"
  then show "getSERPResults (\<lambda>taskData. Inr response) params =
      Inr \<lparr>SERPResult.keyword = SERPParams.keyword params, totalResults = 0, items = []\<rparr>"
    by (simp add: getSERPResults_def)
next
  assume a: "first_result response = Some r \<and> SERPTaskResult.items r = Some its"
  then have "getSERPResults (\<lambda>taskData. Inr response) params =
      Inr \<lparr>SERPResult.keyword = SERPTaskResult.keyword r,
           totalResults = se_results_count r, items = organic_items its\<rparr>"
    by (simp add: getSERPResults_def)
  then show "\<exists>snapshot.
         getSERPResults (\<lambda>taskData. Inr response) params = Inr snapshot
         \<and> SERPResult.items snapshot = organic_items its
         \<and> length (SERPResult.items snapshot) =
             min 10 (length (filter (\<lambda>item. ProviderSERPItem.type item = js ''organic'') its))
         \<and> map SERPItem.url (SERPResult.items snapshot) =
             map ProviderSERPItem.url
               (take 10 (filter (\<lambda>item. ProviderSERPItem.type item = js ''organic'') its))
         \<and> map rank (SERPResult.items snapshot) =
             [1..<Suc (length (SERPResult.items snapshot))]
         \<and> organic_items
             (map (\<lambda>item. item\<lparr>rank_absolute := f item, rank_group := g item\<rparr>) its)
            = SERPResult.items snapshot"
    using organic_items_length [of its] organic_items_entries [of its]
      organic_items_rank [of its] organic_items_renumbered [where f = f and g = g and its = its]
    by (simp del: upt_Suc)
qed

lemma js_eval: "js (c # cs) = cu c # js cs" "js [] = []"
  by (simp_all add: js_def)

theorem getSERPResults_organic_top10_witness:
  "first_result example_serp_response = Some example_serp_result
   \<and> SERPTaskResult.items example_serp_result = Some example_provider_items
   \<and> (\<exists>snapshot.
         getSERPResults (\<lambda>taskData. Inr example_serp_response) example_serp_params
           = Inr snapshot
         \<and> map rank (SERPResult.items snapshot) = [1, 2]
         \<and> map SERPItem.url (SERPResult.items snapshot)
             = [js ''https://a.example'', js ''https://b.example''])
   \<and> first_result \<lparr>tasks = None :: SERPTaskResult DataForSEOTask list option\<rparr> = None
   \<and> getSERPResults (\<lambda>taskData. Inr \<lparr>tasks = None\<rparr>) example_serp_params
       = Inr \<lparr>SERPResult.keyword = js ''seo tips'', totalResults = 0, items = []\<rparr>"
proof -
  have h: "first_result example_serp_response = Some example_serp_result
           \<and> SERPTaskResult.items example_serp_result = Some example_provider_items"
    by (simp add: first_result_def example_serp_response_def example_serp_result_def
          first_of_def)
  have kept: "filter (\<lambda>item. ProviderSERPItem.type item = js ''organic'')
                example_provider_items
              = [example_provider_items ! 1, example_provider_items ! 3]"
    by (simp add: example_provider_items_def js_eval cu_def)
  have none: "first_result \<lparr>tasks = None :: SERPTaskResult DataForSEOTask list option\<rparr> = None"
    by (simp add: first_result_def)
  from getSERPResults_organic_top10
         [of example_serp_response example_serp_params example_serp_result
             example_provider_items, THEN conjunct2, rule_format, OF h]
  obtain snapshot where
    s: "getSERPResults (\<lambda>taskData. Inr example_serp_response) example_serp_params
          = Inr snapshot"
    and len: "length (SERPResult.items snapshot) =
       min 10 (length (filter (\<lambda>item. ProviderSERPItem.type item = js ''organic'')
                         example_provider_items))"
    and urls: "map SERPItem.url (SERPResult.items snapshot) =
       map ProviderSERPItem.url
         (take 10 (filter (\<lambda>item. ProviderSERPItem.type item = js ''organic'')
                     example_provider_items))"
    and ranks: "map rank (SERPResult.items snapshot) =
       [1..<Suc (length (SERPResult.items snapshot))]"
    by blast
  have "length (SERPResult.items snapshot) = 2"
    using len by (simp add: kept)
  then have r: "map rank (SERPResult.items snapshot) = [1, 2]"
    using ranks by (simp add: upt_rec)
  have u: "map SERPItem.url (SERPResult.items snapshot)
             = [js ''https://a.example'', js ''https://b.example'']"
    using urls by (simp add: kept) (simp add: example_provider_items_def)
  from getSERPResults_organic_top10
         [of "\<lparr>tasks = None\<rparr>" example_serp_params, THEN conjunct1, rule_format, OF none]
  have "getSERPResults (\<lambda>taskData. Inr \<lparr>tasks = None\<rparr>) example_serp_params
       = Inr \<lparr>SERPResult.keyword = js ''seo tips'', totalResults = 0, items = []\<rparr>"
    by (simp add: example_serp_params_def)
  with h none s r u show ?thesis
    by simp
qed

subsection \<open>The keyword plan parser\<close>

lemma match_json_object_Some:
  assumes "match_json_object s = Some m"
  shows "\<exists>pre mid post. s = pre @ m @ post \<and> m = cu CHR ''{'' # mid @ [cu CHR ''}'']
           \<and> cu CHR ''{'' \<notin> set pre \<and> cu CHR ''}'' \<notin> set post"
proof -
  let ?ob = "cu CHR ''{''" and ?cb = "cu CHR ''}''"
  let ?pre = "takeWhile (\<lambda>c. c \<noteq> ?ob) s"
  from assms obtain ob rest where d: "dropWhile (\<lambda>c. c \<noteq> ?ob) s = ob # rest"
    and close: "?cb \<in> set rest"
    and m: "m = ob # rev (dropWhile (\<lambda>c. c \<noteq> ?cb) (rev rest))"
    by (auto simp: match_json_object_def split: list.splits if_splits)
  have ob: "ob = ?ob"
    using hd_dropWhile [of "\<lambda>c. c \<noteq> ?ob" s] d by auto
  from close obtain mid post where rest: "rest = mid @ ?cb # post" and post: "?cb \<notin> set post"
    by (auto dest: split_list_last)
  have "dropWhile (\<lambda>c. c \<noteq> ?cb) (rev post @ ?cb # rev mid)
        = dropWhile (\<lambda>c. c \<noteq> ?cb) (?cb # rev mid)"
    by (rule dropWhile_append2) (use post in auto)
  then have "dropWhile (\<lambda>c. c \<noteq> ?cb) (rev rest) = ?cb # rev mid"
    by (simp add: rest)
  then have m': "m = ?ob # mid @ [?cb]"
    using m ob by simp
  have "s = ?pre @ ob # rest"
    using takeWhile_dropWhile_id [of "\<lambda>c. c \<noteq> ?ob" s] d by simp
  then have "s = ?pre @ m @ post"
    using m' ob rest by simp
  moreover have "?ob \<notin> set ?pre"
    by (auto dest: set_takeWhileD)
  ultimately show ?thesis
    using m' post by blast
qed

lemma match_json_object_None:
  assumes "match_json_object s = None"
  shows "\<not> (\<exists>pre mid post. s = pre @ cu CHR ''{'' # mid @ cu CHR ''}'' # post)"
proof
  let ?ob = "cu CHR ''{''" and ?cb = "cu CHR ''}''"
  assume "\<exists>pre mid post. s = pre @ ?ob # mid @ ?cb # post"
  then obtain pre mid post where s: "s = pre @ ?ob # mid @ ?cb # post"
    by blast
  then have "?ob \<in> set s"
    by simp
  then obtain a b where ab: "s = a @ ?ob # b" and a: "?ob \<notin> set a"
    by (auto dest: split_list_first)
  then have d: "dropWhile (\<lambda>c. c \<noteq> ?ob) s = ?ob # b"
    by (auto simp: dropWhile_append3)
  have "length a \<le> length pre"
  proof (rule ccontr)
    assume "\<not> length a \<le> length pre"
    then have "length pre < length a" by simp
    moreover have "s ! length pre = ?ob" using s by simp
    moreover have "s ! length pre = a ! length pre"
      using ab \<open>length pre < length a\<close> by (simp add: nth_append)
    ultimately show False using a by (metis nth_mem)
  qed
  then have "?cb \<in> set b"
  proof -
    have "drop (Suc (length a)) s = b" using ab by simp
    moreover have "drop (Suc (length pre)) s = mid @ ?cb # post" using s by simp
    moreover have "drop (Suc (length pre)) s
                   = drop (length pre - length a) (drop (Suc (length a)) s)"
      using \<open>length a \<le> length pre\<close> by simp
    ultimately have "mid @ ?cb # post = drop (length pre - length a) b" by simp
    then have "?cb \<in> set (drop (length pre - length a) b)"
      by (metis in_set_conv_decomp)
    then show ?thesis by (rule in_set_dropD)
  qed
  with d assms show False
    by (simp add: match_json_object_def)
qed

text \<open>
  C1. When no JSON object can be extracted from the response (the expression does not
  match) or the extracted span does not parse, the parser returns the fallback plan: its
  primary keyword is the topic, its five collections are empty and its target word count
  is 2500. The parser is a total function into plans, so it neither throws nor returns
  null.
\<close>

theorem parseKeywordResearchResponse_fallback:
  assumes "match_json_object response = None
           \<or> (\<exists>span. match_json_object response = Some span \<and> JSON_parse span = None)"
  shows "PrimaryKeyword.keyword
           (KeywordResearchResult.primaryKeyword
              (parseKeywordResearchResponse JSON_parse response t)) = t
       \<and> KeywordResearchResult.secondaryKeywords
           (parseKeywordResearchResponse JSON_parse response t) = []
       \<and> longTailClusters (parseKeywordResearchResponse JSON_parse response t) = []
       \<and> questions (parseKeywordResearchResponse JSON_parse response t) = []
       \<and> ContentStructure.sections
           (contentStructure (parseKeywordResearchResponse JSON_parse response t)) = []
       \<and> contentGaps
           (competitiveAnalysis (parseKeywordResearchResponse JSON_parse response t)) = []
       \<and> ContentStructure.targetWordCount
           (contentStructure (parseKeywordResearchResponse JSON_parse response t)) = 2500"
  using assms by (auto simp: parseKeywordResearchResponse_def)

theorem parseKeywordResearchResponse_fallback_witness:
  "(match_json_object (js ''I cannot { answer'') = None
    \<or> (\<exists>span. match_json_object (js ''I cannot { answer'') = Some span
               \<and> (\<lambda>text. None) span = None))
   \<and> PrimaryKeyword.keyword
       (KeywordResearchResult.primaryKeyword
          (parseKeywordResearchResponse (\<lambda>text. None) (js ''I cannot { answer'') (js ''seo'')))
     = js ''seo''
   \<and> ContentStructure.targetWordCount
       (contentStructure
          (parseKeywordResearchResponse (\<lambda>text. None) (js ''I cannot { answer'') (js ''seo'')))
     = 2500"
proof -
  have h: "match_json_object (js ''I cannot { answer'') = None
    \<or> (\<exists>span. match_json_object (js ''I cannot { answer'') = Some span
               \<and> (\<lambda>text. None :: KeywordResearchResult option) span = None)"
    by (simp add: match_json_object_def js_eval cu_def)
  from parseKeywordResearchResponse_fallback [OF h, of "js ''seo''"] h show ?thesis
    by blast
qed




subsection \<open>The shape of a run\<close>

lemma for_await_chunks_eq:
  "for_await_chunks acc chunks =
     (map (\<lambda>chunk. chunk_event \<lparr>ChunkData.content = chunk\<rparr>) chunks, acc @ concat chunks)"
  by (induction chunks arbitrary: acc) simp_all

lemma generate_unfold:
  "generate w this input =
     (case performKeywordResearch w this (topic input) (analyzeSERP w this (topic input))
             (targetAudience input) of
        Inl e \<Rightarrow> Inl e
      | Inr (kw, kt) \<Rightarrow>
          (case generateOutline w this kw (ArticleGenerationInput.internalLinks input) of
             Inl e \<Rightarrow> Inl e
           | Inr (ol, ot) \<Rightarrow>
               (case writeArticle w this ol kw of
                  Inl e \<Rightarrow> Inl e
                | Inr (text, tokens) \<Rightarrow>
                    Inr \<lparr>ArticleGenerationOutput.success = True,
                         data = result_data input ol kw text,
                         metadata =
                           \<lparr>generatedAt = toISOString (runtime w) (clock (runtime w) 1),
                            processingTime = clock (runtime w) 2 - clock (runtime w) 0,
                            tokensUsed =
                              \<lparr>TokensUsed.keywordResearch = kt, outline = ot,
                               article = tokens\<rparr>\<rparr>\<rparr>)))"
  by (simp add: generate_def Let_def split: sum.splits prod.splits)

lemma generateStream_unfold:
  fixes w this input
  defines "P \<equiv> \<lambda>ph pc msg. progress_event \<lparr>phase = js ph, progress = pc, message = js msg\<rparr>"
  defines "C \<equiv> map (\<lambda>chunk. chunk_event \<lparr>ChunkData.content = chunk\<rparr>)"
  defines "before_keywords \<equiv>
    [P ''serp_analysis'' 5 ''Analyzing SERP results...'',
     P ''keyword_research'' 20 ''Performing keyword research...'']"
  defines "before_outline \<equiv>
    [P ''keyword_research'' 35 ''Keyword research complete'',
     P ''outline'' 40 ''Generating article outline...'']"
  defines "before_article \<equiv>
    [P ''outline'' 55 ''Outline complete'', P ''article'' 60 ''Writing article...'']"
  shows "generateStream w this input =
     (case performKeywordResearch w this (topic input) (analyzeSERP w this (topic input))
             (targetAudience input) of
        Inl e \<Rightarrow> (before_keywords, Inl e)
      | Inr (kw, kt) \<Rightarrow>
          (case generateOutline w this kw (ArticleGenerationInput.internalLinks input) of
             Inl e \<Rightarrow> (before_keywords @ before_outline, Inl e)
           | Inr (ol, ot) \<Rightarrow>
               (case writeArticleStream w this ol kw of
                  (chunks, Some e) \<Rightarrow>
                    (before_keywords @ before_outline @ before_article @ C chunks, Inl e)
                | (chunks, None) \<Rightarrow>
                    (before_keywords @ before_outline @ before_article @ C chunks
                     @ [P ''article'' 95 ''Finalizing...'',
                        complete_event
                          \<lparr>CompleteData.success = True,
                           data = result_data input ol kw (concat chunks),
                           metadata =
                             \<lparr>generatedAt = toISOString (runtime w) (clock (runtime w) 1),
                              processingTime = clock (runtime w) 2 - clock (runtime w) 0,
                              tokensUsed =
                                \<lparr>TokensUsed.keywordResearch = kt, outline = ot,
                                 article =
                                   real (nat \<lceil>real (length (concat chunks)) / 4\<rceil>)\<rparr>\<rparr>\<rparr>],
                     Inr ()))))"
  unfolding P_def C_def before_keywords_def before_outline_def before_article_def
  by (simp add: generateStream_def Let_def then_gen_def yield_def await_def progress_step_def
        stream_article_def for_await_chunks_eq
      split: sum.splits prod.splits option.splits)


lemma progress_values_append [simp]:
  "progress_values (xs @ ys) = progress_values xs @ progress_values ys"
  by (induction xs rule: progress_values.induct) simp_all

lemma chunk_payloads_append [simp]:
  "chunk_payloads (xs @ ys) = chunk_payloads xs @ chunk_payloads ys"
  by (induction xs rule: chunk_payloads.induct) simp_all

lemma completions_append [simp]:
  "completions (xs @ ys) = completions xs @ completions ys"
  by (induction xs rule: completions.induct) simp_all

lemma chunk_events_observed [simp]:
  "progress_values (map (\<lambda>chunk. chunk_event \<lparr>ChunkData.content = chunk\<rparr>) chunks) = []"
  "chunk_payloads (map (\<lambda>chunk. chunk_event \<lparr>ChunkData.content = chunk\<rparr>) chunks) = chunks"
  "completions (map (\<lambda>chunk. chunk_event \<lparr>ChunkData.content = chunk\<rparr>) chunks) = []"
  "list_all (\<lambda>e. \<not> is_terminal e)
     (map (\<lambda>chunk. chunk_event \<lparr>ChunkData.content = chunk\<rparr>) chunks)"
  by (induction chunks) simp_all

lemma generateStream_completed:
  assumes "generateStream w this input = (events, Inr u)"
  shows "\<exists>kw kt ol ot chunks final.
           performKeywordResearch w this (topic input) (analyzeSERP w this (topic input))
             (targetAudience input) = Inr (kw, kt)
         \<and> generateOutline w this kw (ArticleGenerationInput.internalLinks input)
             = Inr (ol, ot)
         \<and> writeArticleStream w this ol kw = (chunks, None)
         \<and> progress_values events = [5, 20, 35, 40, 55, 60, 95]
         \<and> chunk_payloads events = chunks
         \<and> completions events = [final]
         \<and> CompleteData.data final = result_data input ol kw (concat chunks)
         \<and> events \<noteq> [] \<and> last events = complete_event final
         \<and> list_all (\<lambda>e. \<not> is_terminal e) (butlast events)"
  using assms unfolding generateStream_unfold
  by (auto split: sum.splits prod.splits option.splits simp: butlast_append)

lemma generateStream_thrown:
  assumes "generateStream w this input = (events, Inl e)"
  shows "progress_values events \<in> {[5, 20], [5, 20, 35, 40], [5, 20, 35, 40, 55, 60]}
         \<and> completions events = []
         \<and> list_all (\<lambda>e. \<not> is_terminal e) events"
  using assms unfolding generateStream_unfold
  by (auto split: sum.splits prod.splits option.splits)

lemma generate_completed:
  assumes "generate w this input = Inr out"
  shows "\<exists>kw kt ol ot text tokens.
           performKeywordResearch w this (topic input) (analyzeSERP w this (topic input))
             (targetAudience input) = Inr (kw, kt)
         \<and> generateOutline w this kw (ArticleGenerationInput.internalLinks input)
             = Inr (ol, ot)
         \<and> writeArticle w this ol kw = Inr (text, tokens)
         \<and> ArticleGenerationOutput.success out
         \<and> ArticleGenerationOutput.data out = result_data input ol kw text"
  using assms unfolding generate_unfold
  by (auto split: sum.splits prod.splits)

lemma result_data_article:
  "ArticleResult.content (OutputData.article (result_data input ol kw text)) = text"
  "ArticleResult.wordCount (OutputData.article (result_data input ol kw text)) = countWords text"
  "readingTime (OutputData.article (result_data input ol kw text)) = readingTimeOf (countWords text)"
  "references (result_data input ol kw text) = extractReferences text"
  by (simp_all add: result_data_def Let_def)


lemma complete_event_in_completions:
  "complete_event d \<in> set events \<longleftrightarrow> d \<in> set (completions events)"
  by (induction events rule: completions.induct) auto

lemma performKeywordResearch_thrown:
  "performKeywordResearch w this t serpData audience = Inl e
   \<Longrightarrow> \<exists>req. complete w (aiClient this) req = Inl e"
  by (auto simp: performKeywordResearch_def Let_def split: sum.splits)

lemma generateOutline_thrown:
  "generateOutline w this kw links = Inl e \<Longrightarrow> \<exists>req. complete w (aiClient this) req = Inl e"
  by (auto simp: generateOutline_def Let_def split: sum.splits)

lemma writeArticle_thrown:
  "writeArticle w this ol kw = Inl e \<Longrightarrow> \<exists>req. complete w (aiClient this) req = Inl e"
  by (auto simp: writeArticle_def split: sum.splits)

lemma generate_thrown:
  assumes "generate w this input = Inl e"
  shows "\<exists>req. complete w (aiClient this) req = Inl e"
  using assms unfolding generate_unfold
  by (auto split: sum.splits prod.splits
        dest: performKeywordResearch_thrown generateOutline_thrown writeArticle_thrown)

lemma generate_returns:
  assumes "\<And>req. \<exists>resp. complete w (aiClient this) req = Inr resp"
  shows "\<exists>out. generate w this input = Inr out \<and> ArticleGenerationOutput.success out"
proof (cases "generate w this input")
  case (Inl e)
  then obtain req where "complete w (aiClient this) req = Inl e"
    using generate_thrown by blast
  with assms [of req] show ?thesis
    by auto
next
  case (Inr out)
  then show ?thesis
    using generate_completed [OF Inr] by auto
qed

lemma generateStream_returns:
  assumes "\<And>req. \<exists>resp. complete w (aiClient this) req = Inr resp"
    and "\<And>req. snd (stream w (aiClient this) req) = None"
  shows "\<exists>events. generateStream w this input = (events, Inr ())"
proof -
  have no_throw: "complete w (aiClient this) req \<noteq> Inl e" for req e
    using assms(1) [of req] by auto
  obtain kw kt where
    k: "performKeywordResearch w this (topic input) (analyzeSERP w this (topic input))
          (targetAudience input) = Inr (kw, kt)"
    using performKeywordResearch_thrown no_throw
    by (cases "performKeywordResearch w this (topic input) (analyzeSERP w this (topic input))
                 (targetAudience input)") fastforce+
  obtain ol ot where
    l: "generateOutline w this kw (ArticleGenerationInput.internalLinks input) = Inr (ol, ot)"
    using generateOutline_thrown no_throw
    by (cases "generateOutline w this kw (ArticleGenerationInput.internalLinks input)")
       fastforce+
  obtain chunks where a: "writeArticleStream w this ol kw = (chunks, None)"
    using assms(2) [of "article_request w ol kw"]
    by (cases "stream w (aiClient this) (article_request w ol kw)")
       (simp add: writeArticleStream_def)
  show ?thesis
    unfolding generateStream_unfold by (simp add: k l a)
qed

lemma example_complete:
  "\<exists>resp. complete example_world (aiClient example_agent) req = Inr resp"
  by (simp add: example_world_def)

lemma example_stream:
  "snd (stream example_world (aiClient example_agent) req) = None"
  by (simp add: example_world_def)

lemma example_fragments_concat: "concat example_fragments = example_article"
  by (simp add: example_fragments_def example_article_def js_def)

lemma example_article_words: "countWords example_article = 7"
  by code_simp




subsection \<open>The two execution modes\<close>

text \<open>
  C2. Take a buffered run and a streaming run of the same agent on the same input, both
  completed, where the fragments of the article stream concatenate to the text of the
  article completion. Then the chunk payloads concatenate to the article content of the
  buffered result, the stream carries one complete event, and that event holds the same
  data as the buffered result, in particular the same article content.
\<close>

theorem streaming_matches_buffered:
  assumes "generate w this input = Inr out"
    and "generateStream w this input = (events, Inr ())"
    and "\<And>ol kw content' tokens.
           writeArticle w this ol kw = Inr (content', tokens)
           \<Longrightarrow> concat (fst (writeArticleStream w this ol kw)) = content'"
  shows "concat (chunk_payloads events)
           = ArticleResult.content (OutputData.article (ArticleGenerationOutput.data out))
       \<and> (\<exists>final. completions events = [final]
              \<and> CompleteData.data final = ArticleGenerationOutput.data out
              \<and> ArticleResult.content (OutputData.article (CompleteData.data final))
                  = concat (chunk_payloads events))"
proof -
  from generate_completed [OF assms(1)] obtain kw kt ol ot content' tokens where
    k: "performKeywordResearch w this (topic input) (analyzeSERP w this (topic input))
          (targetAudience input) = Inr (kw, kt)"
    and l: "generateOutline w this kw (ArticleGenerationInput.internalLinks input)
              = Inr (ol, ot)"
    and a: "writeArticle w this ol kw = Inr (content', tokens)"
    and d: "ArticleGenerationOutput.data out = result_data input ol kw content'"
    by blast
  from generateStream_completed [OF assms(2)] k l obtain chunks final where
    s: "writeArticleStream w this ol kw = (chunks, None)"
    and c: "chunk_payloads events = chunks"
    and e: "completions events = [final]"
    and d': "CompleteData.data final = result_data input ol kw (concat chunks)"
    by auto
  have "concat chunks = content'"
    using assms(3) [OF a] s by simp
  with c d d' e show ?thesis
    by (simp add: result_data_article)
qed

theorem streaming_matches_buffered_witness:
  "\<exists>out events.
     generate example_world example_agent example_input = Inr out
     \<and> generateStream example_world example_agent example_input = (events, Inr ())
     \<and> (\<forall>ol kw content' tokens.
           writeArticle example_world example_agent ol kw = Inr (content', tokens)
           \<longrightarrow> concat (fst (writeArticleStream example_world example_agent ol kw)) = content')
     \<and> concat (chunk_payloads events) = example_article
     \<and> ArticleResult.content (OutputData.article (ArticleGenerationOutput.data out))
         = example_article"
proof -
  obtain out where g: "generate example_world example_agent example_input = Inr out"
    using generate_returns [of example_world example_agent example_input] example_complete
    by blast
  obtain events where
    s: "generateStream example_world example_agent example_input = (events, Inr ())"
    using generateStream_returns [of example_world example_agent example_input]
      example_complete example_stream
    by blast
  have same: "concat (fst (writeArticleStream example_world example_agent ol kw)) = content'"
    if "writeArticle example_world example_agent ol kw = Inr (content', tokens)"
    for ol kw content' tokens
    using that
    by (simp add: writeArticle_def writeArticleStream_def example_world_def
          example_fragments_concat)
  have "writeArticleStream example_world example_agent ol kw = (example_fragments, None)"
    for ol kw
    by (simp add: writeArticleStream_def example_world_def)
  then have "chunk_payloads events = example_fragments"
    using generateStream_completed [OF s] by auto
  then have "concat (chunk_payloads events) = example_article"
    by (simp add: example_fragments_concat)
  with streaming_matches_buffered [OF g s same] g s same show ?thesis
    by auto
qed


subsection \<open>Derived fields of a result\<close>

lemma example_reading_time: "readingTimeOf 7 = js ''1 min''"
  by (simp add: readingTimeOf_def show_nat.simps js_def cu_def)

text \<open>
  C3. In the result of a completed run, buffered or streaming, the word count of the
  article is the number of maximal runs of non-white-space code units of the content
  once the eight formatting characters are deleted, and the reading time is the decimal
  numeral of the ceiling of that count over 200, followed by \<^verbatim>\<open> min\<close>.
\<close>

theorem word_count_and_reading_time:
  "(generate w this input = Inr out \<longrightarrow>
      ArticleResult.wordCount (OutputData.article (ArticleGenerationOutput.data out))
        = spec_word_count
            (ArticleResult.content (OutputData.article (ArticleGenerationOutput.data out)))
      \<and> readingTime (OutputData.article (ArticleGenerationOutput.data out))
        = show_nat
            (nat \<lceil>real (ArticleResult.wordCount
                           (OutputData.article (ArticleGenerationOutput.data out))) / 200\<rceil>)
          @ js '' min'')
   \<and> (complete_event final \<in> set (fst (generateStream w this input)) \<longrightarrow>
      ArticleResult.wordCount (OutputData.article (CompleteData.data final))
        = spec_word_count
            (ArticleResult.content (OutputData.article (CompleteData.data final)))
      \<and> readingTime (OutputData.article (CompleteData.data final))
        = show_nat
            (nat \<lceil>real (ArticleResult.wordCount
                           (OutputData.article (CompleteData.data final))) / 200\<rceil>)
          @ js '' min'')"
proof (intro conjI impI)
  assume "generate w this input = Inr out"
  from generate_completed [OF this] obtain ol kw content' where
    d: "ArticleGenerationOutput.data out = result_data input ol kw content'"
    by blast
  show "ArticleResult.wordCount (OutputData.article (ArticleGenerationOutput.data out))
        = spec_word_count
            (ArticleResult.content (OutputData.article (ArticleGenerationOutput.data out)))"
    by (simp add: d result_data_article countWords_spec)
  show "readingTime (OutputData.article (ArticleGenerationOutput.data out))
        = show_nat
            (nat \<lceil>real (ArticleResult.wordCount
                           (OutputData.article (ArticleGenerationOutput.data out))) / 200\<rceil>)
          @ js '' min''"
    by (simp add: d result_data_article readingTimeOf_def)
next
  assume in_stream: "complete_event final \<in> set (fst (generateStream w this input))"
  obtain events outcome where g: "generateStream w this input = (events, outcome)"
    by (cases "generateStream w this input")
  from in_stream g have mem: "final \<in> set (completions events)"
    by (simp add: complete_event_in_completions)
  have "\<exists>ol kw content'. CompleteData.data final = result_data input ol kw content'"
  proof (cases outcome)
    case (Inl e)
    with g mem generateStream_thrown [of w this input events e] show ?thesis
      by simp
  next
    case (Inr u)
    with g mem generateStream_completed [of w this input events u] show ?thesis
      by fastforce
  qed
  then obtain ol kw content' where
    d: "CompleteData.data final = result_data input ol kw content'"
    by blast
  show "ArticleResult.wordCount (OutputData.article (CompleteData.data final))
        = spec_word_count
            (ArticleResult.content (OutputData.article (CompleteData.data final)))"
    by (simp add: d result_data_article countWords_spec)
  show "readingTime (OutputData.article (CompleteData.data final))
        = show_nat
            (nat \<lceil>real (ArticleResult.wordCount
                           (OutputData.article (CompleteData.data final))) / 200\<rceil>)
          @ js '' min''"
    by (simp add: d result_data_article readingTimeOf_def)
qed

theorem word_count_and_reading_time_witness:
  "\<exists>out. generate example_world example_agent example_input = Inr out
     \<and> ArticleResult.content (OutputData.article (ArticleGenerationOutput.data out))
         = example_article
     \<and> ArticleResult.wordCount (OutputData.article (ArticleGenerationOutput.data out)) = 7
     \<and> spec_word_count example_article = 7
     \<and> readingTime (OutputData.article (ArticleGenerationOutput.data out)) = js ''1 min''"
proof -
  obtain out where g: "generate example_world example_agent example_input = Inr out"
    using generate_returns [of example_world example_agent example_input] example_complete
    by blast
  from generate_completed [OF g] obtain ol kw content' tokens where
    a: "writeArticle example_world example_agent ol kw = Inr (content', tokens)"
    and d: "ArticleGenerationOutput.data out = result_data example_input ol kw content'"
    by blast
  from a have c: "content' = example_article"
    by (simp add: writeArticle_def example_world_def)
  have content: "ArticleResult.content (OutputData.article (ArticleGenerationOutput.data out))
                   = example_article"
    by (simp add: d c result_data_article)
  have count: "ArticleResult.wordCount (OutputData.article (ArticleGenerationOutput.data out))
                 = 7"
    by (simp add: d c result_data_article example_article_words)
  from word_count_and_reading_time
         [of example_world example_agent example_input out, THEN conjunct1, rule_format, OF g]
  have "spec_word_count example_article = 7"
    and "readingTime (OutputData.article (ArticleGenerationOutput.data out)) = js ''1 min''"
    unfolding content count using example_reading_time
    by (simp_all add: readingTimeOf_def)
  with g content count show ?thesis
    by blast
qed

subsection \<open>Progress of a streaming run\<close>







subsection \<open>The event stream of the streaming route\<close>

lemma filter_terminal_none:
  "list_all (\<lambda>e. \<not> is_terminal e) events \<Longrightarrow> filter is_terminal events = []"
  by (induction events) simp_all

lemma post_generate_stream_cases:
  assumes "post_generate_stream w req = event_stream events"
  obtains (construction) e where "events = [caught_event e]"
  | (thrown) input agent before e where
      "generateStream w agent input = (before, Inl e)" "events = before @ [caught_event e]"
  | (completed) input agent where "generateStream w agent input = (events, Inr ())"
  using assms
  by (auto simp: post_generate_stream_def split: option.splits sum.splits prod.splits)

text \<open>
  C6. In the event stream the streaming route writes, the percent values of the progress
  events are non-decreasing and at most 100 (they are natural numbers, so at least 0),
  and exactly one event is terminal, a complete event or an error event: it is the last
  event of the stream.
\<close>

theorem stream_progress_and_termination:
  assumes "post_generate_stream w req = event_stream events"
  shows "sorted (progress_values events)
       \<and> (\<forall>p \<in> set (progress_values events). 0 \<le> p \<and> p \<le> 100)
       \<and> events \<noteq> [] \<and> is_terminal (last events)
       \<and> length (filter is_terminal events) = 1"
  using assms
proof (cases rule: post_generate_stream_cases)
  case (construction e)
  then show ?thesis
    by (simp add: caught_event_def)
next
  case (thrown input agent before e)
  from generateStream_thrown [OF thrown(1)] thrown(2) show ?thesis
    by (auto simp: caught_event_def filter_terminal_none)
next
  case (completed input agent)
  from generateStream_completed [OF completed]
  obtain final where p: "progress_values events = [5, 20, 35, 40, 55, 60, 95]"
    and ne: "events \<noteq> []" and l: "last events = complete_event final"
    and b: "list_all (\<lambda>e. \<not> is_terminal e) (butlast events)"
    by blast
  have "filter is_terminal events
        = filter is_terminal (butlast events) @ filter is_terminal [last events]"
    using ne by (metis append_butlast_last_id filter_append)
  then have "length (filter is_terminal events) = 1"
    using b l by (simp add: filter_terminal_none)
  with p ne l show ?thesis
    by simp
qed

lemma example_agent_constructed:
  "new_ContentGeneratorAgent example_env (Some openai) = Inr example_agent"
  by (simp add: new_ContentGeneratorAgent_def new_DataForSEOClient_def new_OpenAIClient_def
        example_env_def example_agent_def str_or_def num_or_def js_def)

theorem stream_progress_and_termination_witness:
  "\<exists>events. post_generate_stream example_world example_request = event_stream events
     \<and> sorted (progress_values events) \<and> is_terminal (last events)
     \<and> length (filter is_terminal events) = 1"
proof -
  let ?input = "example_input\<lparr>includeKeywordResearch := Some True, includeFAQ := Some True\<rparr>"
  have v: "safeParse (runtime example_world) (body example_request) = Some ?input"
    by (simp add: safeParse_def example_request_def example_input_def js_def)
  have a: "new_ContentGeneratorAgent (process_env example_world)
             (Some (provider_of example_request)) = Inr example_agent"
    using example_agent_constructed
    by (simp add: example_world_def provider_of_def example_request_def)
  obtain events where
    s: "generateStream example_world example_agent ?input = (events, Inr ())"
    using generateStream_returns [of example_world example_agent ?input]
      example_complete example_stream
    by blast
  have r: "post_generate_stream example_world example_request = event_stream events"
    by (simp add: post_generate_stream_def v a s)
  from stream_progress_and_termination [OF r] r show ?thesis
    by blast
qed

subsection \<open>A failed research fetch\<close>






subsection \<open>The matchers against the expressions they stand for\<close>

lemma takeWhile_upto:
  "x \<notin> set xs \<Longrightarrow> takeWhile (\<lambda>c. c \<noteq> x) (xs @ x # ys) = xs"
  by (induction xs) auto

lemma dropWhile_upto:
  "x \<notin> set xs \<Longrightarrow> dropWhile (\<lambda>c. c \<noteq> x) (xs @ x # ys) = x # ys"
  by (induction xs) auto

lemma split_at_first:
  assumes "dropWhile (\<lambda>c. c \<noteq> x) s = y # ys"
  shows "y = x \<and> s = takeWhile (\<lambda>c. c \<noteq> x) s @ x # ys
         \<and> x \<notin> set (takeWhile (\<lambda>c. c \<noteq> x) s)"
proof -
  have "y = x"
    using hd_dropWhile [of "\<lambda>c. c \<noteq> x" s] assms by auto
  moreover have "s = takeWhile (\<lambda>c. c \<noteq> x) s @ dropWhile (\<lambda>c. c \<noteq> x) s"
    by simp
  moreover have "x \<notin> set (takeWhile (\<lambda>c. c \<noteq> x) s)"
    by (auto dest: set_takeWhileD)
  ultimately show ?thesis
    using assms by simp
qed

lemma link_at_iff:
  "link_at s = Some (label, target) \<longleftrightarrow>
     (\<exists>rest. s = cu CHR ''['' # label @ cu CHR '']'' # cu CHR ''('' # target
                  @ cu CHR '')'' # rest
        \<and> label \<noteq> [] \<and> cu CHR '']'' \<notin> set label
        \<and> target \<noteq> [] \<and> cu CHR '')'' \<notin> set target)"
proof
  assume a: "link_at s = Some (label, target)"
  then obtain after_open where s: "s = cu CHR ''['' # after_open"
    by (cases s) (auto simp: link_at_def split: if_splits)
  let ?label = "takeWhile (\<lambda>x. x \<noteq> cu CHR '']'') after_open"
  from a s obtain cb op after_paren where
    al: "dropWhile (\<lambda>x. x \<noteq> cu CHR '']'') after_open = cb # op # after_paren"
    and l: "?label \<noteq> []"
    by (auto simp: link_at_def Let_def split: if_splits list.splits)
  let ?target = "takeWhile (\<lambda>x. x \<noteq> cu CHR '')'') after_paren"
  from a s al l have op: "op = cu CHR ''(''" and t: "?target \<noteq> []"
    and at: "dropWhile (\<lambda>x. x \<noteq> cu CHR '')'') after_paren \<noteq> []"
    and res: "label = ?label" "target = ?target"
    by (auto simp: link_at_def Let_def split: if_splits)
  from at obtain cp rest where
    at': "dropWhile (\<lambda>x. x \<noteq> cu CHR '')'') after_paren = cp # rest"
    by (cases "dropWhile (\<lambda>x. x \<noteq> cu CHR '')'') after_paren") auto
  from split_at_first [OF al] have
    1: "after_open = ?label @ cu CHR '']'' # op # after_paren"
    and 2: "cu CHR '']'' \<notin> set ?label"
    by auto
  from split_at_first [OF at'] have
    3: "after_paren = ?target @ cu CHR '')'' # rest"
    and 4: "cu CHR '')'' \<notin> set ?target"
    by auto
  have "s = cu CHR ''['' # label @ cu CHR '']'' # cu CHR ''('' # target @ cu CHR '')'' # rest"
    using s 1 3 op res by simp
  with l t 2 4 res
  show "\<exists>rest. s = cu CHR ''['' # label @ cu CHR '']'' # cu CHR ''('' # target
                  @ cu CHR '')'' # rest
        \<and> label \<noteq> [] \<and> cu CHR '']'' \<notin> set label
        \<and> target \<noteq> [] \<and> cu CHR '')'' \<notin> set target"
    by blast
next
  assume "\<exists>rest. s = cu CHR ''['' # label @ cu CHR '']'' # cu CHR ''('' # target
                  @ cu CHR '')'' # rest
        \<and> label \<noteq> [] \<and> cu CHR '']'' \<notin> set label
        \<and> target \<noteq> [] \<and> cu CHR '')'' \<notin> set target"
  then obtain rest where
    s: "s = cu CHR ''['' # label @ cu CHR '']'' # cu CHR ''('' # target @ cu CHR '')'' # rest"
    and l: "label \<noteq> []" "cu CHR '']'' \<notin> set label"
    and t: "target \<noteq> []" "cu CHR '')'' \<notin> set target"
    by blast
  show "link_at s = Some (label, target)"
    using l t
    by (simp add: s link_at_def takeWhile_upto dropWhile_upto)
qed

lemma first_link_leftmost:
  "first_link s = Some m \<longleftrightarrow>
     (\<exists>pre post. s = pre @ post \<and> link_at post = Some m
        \<and> (\<forall>pre' post'. s = pre' @ post' \<and> length pre' < length pre
              \<longrightarrow> link_at post' = None))"
proof (induction s)
  case Nil
  show ?case
    by (simp add: link_at_def)
next
  case (Cons x xs)
  show ?case
  proof (cases "link_at (x # xs)")
    case (Some m')
    have "first_link (x # xs) = Some m'"
      using Some by simp
    moreover have "(\<exists>pre post. x # xs = pre @ post \<and> link_at post = Some m
        \<and> (\<forall>pre' post'. x # xs = pre' @ post' \<and> length pre' < length pre
              \<longrightarrow> link_at post' = None)) \<longleftrightarrow> m = m'"
    proof
      assume "\<exists>pre post. x # xs = pre @ post \<and> link_at post = Some m
        \<and> (\<forall>pre' post'. x # xs = pre' @ post' \<and> length pre' < length pre
              \<longrightarrow> link_at post' = None)"
      then obtain pre post where e: "x # xs = pre @ post" and m: "link_at post = Some m"
        and least: "\<forall>pre' post'. x # xs = pre' @ post' \<and> length pre' < length pre
              \<longrightarrow> link_at post' = None"
        by blast
      have "pre = []"
      proof (rule ccontr)
        assume "pre \<noteq> []"
        then have "x # xs = [] @ (x # xs) \<and> length ([] :: jstring) < length pre"
          by simp
        with least have "link_at (x # xs) = None"
          by blast
        with Some show False
          by simp
      qed
      with e m Some show "m = m'"
        by simp
    next
      assume "m = m'"
      with Some have "x # xs = [] @ (x # xs) \<and> link_at (x # xs) = Some m
        \<and> (\<forall>pre' post'. x # xs = pre' @ post' \<and> length pre' < length ([] :: jstring)
              \<longrightarrow> link_at post' = None)"
        by simp
      then show "\<exists>pre post. x # xs = pre @ post \<and> link_at post = Some m
        \<and> (\<forall>pre' post'. x # xs = pre' @ post' \<and> length pre' < length pre
              \<longrightarrow> link_at post' = None)"
        by blast
    qed
    ultimately show ?thesis
      by auto
  next
    case None
    have f: "first_link (x # xs) = first_link xs"
      using None by simp
    have "(\<exists>pre post. x # xs = pre @ post \<and> link_at post = Some m
        \<and> (\<forall>pre' post'. x # xs = pre' @ post' \<and> length pre' < length pre
              \<longrightarrow> link_at post' = None))
      \<longleftrightarrow> (\<exists>pre post. xs = pre @ post \<and> link_at post = Some m
        \<and> (\<forall>pre' post'. xs = pre' @ post' \<and> length pre' < length pre
              \<longrightarrow> link_at post' = None))"
    proof
      assume "\<exists>pre post. x # xs = pre @ post \<and> link_at post = Some m
        \<and> (\<forall>pre' post'. x # xs = pre' @ post' \<and> length pre' < length pre
              \<longrightarrow> link_at post' = None)"
      then obtain pre post where e: "x # xs = pre @ post" and m: "link_at post = Some m"
        and least: "\<And>pre' post'. x # xs = pre' @ post' \<Longrightarrow> length pre' < length pre
              \<Longrightarrow> link_at post' = None"
        by blast
      from e m None obtain ys where pre: "pre = x # ys" and xs: "xs = ys @ post"
        by (cases pre) auto
      have "link_at post' = None" if "xs = pre' @ post'" "length pre' < length ys"
        for pre' post'
        using least [of "x # pre'" post'] that pre by simp
      with xs m show "\<exists>pre post. xs = pre @ post \<and> link_at post = Some m
        \<and> (\<forall>pre' post'. xs = pre' @ post' \<and> length pre' < length pre
              \<longrightarrow> link_at post' = None)"
        by blast
    next
      assume "\<exists>pre post. xs = pre @ post \<and> link_at post = Some m
        \<and> (\<forall>pre' post'. xs = pre' @ post' \<and> length pre' < length pre
              \<longrightarrow> link_at post' = None)"
      then obtain pre post where e: "xs = pre @ post" and m: "link_at post = Some m"
        and least: "\<And>pre' post'. xs = pre' @ post' \<Longrightarrow> length pre' < length pre
              \<Longrightarrow> link_at post' = None"
        by blast
      have "link_at post' = None"
        if "x # xs = pre' @ post'" "length pre' < length (x # pre)" for pre' post'
      proof (cases pre')
        case Nil
        with that None show ?thesis
          by simp
      next
        case (Cons y ys)
        with that have "xs = ys @ post'" "length ys < length pre"
          by simp_all
        then show ?thesis
          by (rule least)
      qed
      moreover have "x # xs = (x # pre) @ post"
        using e by simp
      ultimately show "\<exists>pre post. x # xs = pre @ post \<and> link_at post = Some m
        \<and> (\<forall>pre' post'. x # xs = pre' @ post' \<and> length pre' < length pre
              \<longrightarrow> link_at post' = None)"
        using m by blast
    qed
    with f Cons.IH show ?thesis
      by simp
  qed
qed

lemma numbered_line_iff:
  "numbered_line line \<longleftrightarrow>
     (\<exists>digits rest. line = digits @ cu CHR ''.'' # rest \<and> digits \<noteq> []
        \<and> list_all is_digit digits)"
proof
  assume n: "numbered_line line"
  then obtain c rest where d: "dropWhile is_digit line = c # rest" and c: "c = cu CHR ''.''"
    and t: "takeWhile is_digit line \<noteq> []"
    by (auto simp: numbered_line_def split: list.splits)
  have "line = takeWhile is_digit line @ cu CHR ''.'' # rest"
    using takeWhile_dropWhile_id [of is_digit line] d c by simp
  moreover have "list_all is_digit (takeWhile is_digit line)"
    by (auto simp: list_all_iff dest: set_takeWhileD)
  ultimately show "\<exists>digits rest. line = digits @ cu CHR ''.'' # rest \<and> digits \<noteq> []
        \<and> list_all is_digit digits"
    using t by blast
next
  assume "\<exists>digits rest. line = digits @ cu CHR ''.'' # rest \<and> digits \<noteq> []
        \<and> list_all is_digit digits"
  then obtain digits rest where l: "line = digits @ cu CHR ''.'' # rest"
    and d: "digits \<noteq> []" "list_all is_digit digits"
    by blast
  have dot: "\<not> is_digit (cu CHR ''.'')"
    by (simp add: is_digit_def cu_def)
  have "takeWhile is_digit line = digits"
    unfolding l using d(2) dot by (induction digits) auto
  moreover have "dropWhile is_digit line = cu CHR ''.'' # rest"
    unfolding l using d(2) dot by (induction digits) auto
  ultimately show "numbered_line line"
    using d(1) by (simp add: numbered_line_def)
qed

lemma split_lines_join:
  "join [cu CHR 0x0A] (split_lines s) = s \<and> split_lines s \<noteq> []
   \<and> list_all (\<lambda>line. cu CHR 0x0A \<notin> set line) (split_lines s)"
proof (induction s)
  case Nil
  show ?case by simp
next
  case (Cons c cs)
  then obtain line lines where sl: "split_lines cs = line # lines"
    by (cases "split_lines cs") auto
  show ?case
  proof (cases "c = cu CHR 0x0A")
    case True
    then show ?thesis
      using Cons sl by simp
  next
    case False
    then show ?thesis
      using Cons sl by (cases lines) auto
  qed
qed

subsection \<open>Reference extraction\<close>















lemma heading_length: "length (js ''## References'') = 13"
  by (simp add: js_def)

lemma match_references_None_iff:
  "match_references c = None \<longleftrightarrow>
     (\<forall>pre post. c = pre @ post \<longrightarrow> \<not> starts_with_ci (js ''## References'') post)"
proof (induction c)
  case Nil
  show ?case
    by (simp add: starts_with_ci_def heading_length)
next
  case (Cons x xs)
  show ?case
  proof (cases "starts_with_ci (js ''## References'') (x # xs)")
    case True
    then have "match_references (x # xs) \<noteq> None"
      by simp
    moreover have "x # xs = [] @ (x # xs)"
      by simp
    ultimately show ?thesis
      using True by blast
  next
    case False
    have "(\<forall>pre post. x # xs = pre @ post \<longrightarrow> \<not> starts_with_ci (js ''## References'') post)
          \<longleftrightarrow> (\<forall>pre post. xs = pre @ post \<longrightarrow> \<not> starts_with_ci (js ''## References'') post)"
    proof
      assume a: "\<forall>pre post. x # xs = pre @ post
                   \<longrightarrow> \<not> starts_with_ci (js ''## References'') post"
      show "\<forall>pre post. xs = pre @ post \<longrightarrow> \<not> starts_with_ci (js ''## References'') post"
      proof (intro allI impI)
        fix pre post
        assume "xs = pre @ post"
        then have "x # xs = (x # pre) @ post"
          by simp
        with a show "\<not> starts_with_ci (js ''## References'') post"
          by blast
      qed
    next
      assume a: "\<forall>pre post. xs = pre @ post \<longrightarrow> \<not> starts_with_ci (js ''## References'') post"
      show "\<forall>pre post. x # xs = pre @ post
              \<longrightarrow> \<not> starts_with_ci (js ''## References'') post"
      proof (intro allI impI)
        fix pre post
        assume e: "x # xs = pre @ post"
        show "\<not> starts_with_ci (js ''## References'') post"
        proof (cases pre)
          case Nil
          with e False show ?thesis
            by simp
        next
          case (Cons y ys)
          with e have "xs = ys @ post"
            by simp
          with a show ?thesis
            by blast
        qed
      qed
    qed
    with False Cons.IH show ?thesis
      by simp
  qed
qed

lemma match_references_Some:
  "match_references c = Some section
   \<Longrightarrow> \<exists>pre. c = pre @ section \<and> starts_with_ci (js ''## References'') section"
proof (induction c)
  case Nil
  then show ?case by simp
next
  case (Cons x xs)
  show ?case
  proof (cases "starts_with_ci (js ''## References'') (x # xs)")
    case True
    with Cons.prems have "section = x # xs"
      by simp
    with True show ?thesis
      by (intro exI [of _ "[]"]) simp
  next
    case False
    with Cons.prems have "match_references xs = Some section"
      by simp
    from Cons.IH [OF this] obtain pre where "xs = pre @ section"
      and "starts_with_ci (js ''## References'') section"
      by blast
    then show ?thesis
      by (intro exI [of _ "x # pre"]) simp
  qed
qed

lemma occurs_ci_iff:
  "occurs_ci pat c \<longleftrightarrow> (\<exists>pre post. c = pre @ post \<and> starts_with_ci pat post)"
proof (induction c)
  case Nil
  show ?case by simp
next
  case (Cons x xs)
  show ?case
  proof
    assume "occurs_ci pat (x # xs)"
    then consider "starts_with_ci pat (x # xs)" | "occurs_ci pat xs"
      by auto
    then show "\<exists>pre post. x # xs = pre @ post \<and> starts_with_ci pat post"
    proof cases
      case 1
      then show ?thesis
        by (intro exI [of _ "[]"] exI [of _ "x # xs"]) simp
    next
      case 2
      with Cons.IH obtain pre post where "xs = pre @ post" "starts_with_ci pat post"
        by blast
      then show ?thesis
        by (intro exI [of _ "x # pre"] exI [of _ post]) simp
    qed
  next
    assume "\<exists>pre post. x # xs = pre @ post \<and> starts_with_ci pat post"
    then obtain pre post where e: "x # xs = pre @ post" and p: "starts_with_ci pat post"
      by blast
    show "occurs_ci pat (x # xs)"
    proof (cases pre)
      case Nil
      with e p show ?thesis
        by auto
    next
      case (Cons y ys)
      with e have "xs = ys @ post"
        by simp
      with p Cons.IH show ?thesis
        by auto
    qed
  qed
qed

lemma match_references_None_occurs:
  "match_references c = None \<longleftrightarrow> \<not> occurs_ci (js ''## References'') c"
  by (simp add: match_references_None_iff occurs_ci_iff)

lemma result_references:
  "references (result_data input ol kw content')
   = extractReferences (ArticleResult.content (OutputData.article
       (result_data input ol kw content')))"
  by (simp add: result_data_article)

text \<open>
  C10, as the code has it. Reference extraction is a function from texts to lists of
  references, so it returns a list for every text. It returns the empty list when the
  heading text occurs nowhere in the text, neither at the start of a line nor inside
  one (letter case ignored). The references field of every completed run, buffered or
  streaming, is the extraction from the article content.
\<close>

theorem extractReferences_without_heading:
  "(\<not> occurs_ci (js ''## References'') c \<longrightarrow> extractReferences c = [])
   \<and> (generate w this input = Inr out \<longrightarrow>
        references (ArticleGenerationOutput.data out)
        = extractReferences
            (ArticleResult.content (OutputData.article (ArticleGenerationOutput.data out))))
   \<and> (generateStream w this input = (events, Inr ()) \<longrightarrow>
        (\<exists>final. completions events = [final]
           \<and> references (CompleteData.data final)
             = extractReferences
                 (ArticleResult.content (OutputData.article (CompleteData.data final)))))"
proof (intro conjI impI)
  assume "\<not> occurs_ci (js ''## References'') c"
  then have "match_references c = None"
    by (simp add: match_references_None_occurs)
  then show "extractReferences c = []"
    by (simp add: extractReferences_def)
next
  assume "generate w this input = Inr out"
  from generate_completed [OF this] obtain ol kw content' where
    "ArticleGenerationOutput.data out = result_data input ol kw content'"
    by blast
  then show "references (ArticleGenerationOutput.data out)
        = extractReferences
            (ArticleResult.content (OutputData.article (ArticleGenerationOutput.data out)))"
    by (simp only: result_references)
next
  assume "generateStream w this input = (events, Inr ())"
  from generateStream_completed [OF this] obtain ol kw chunks final where
    "completions events = [final]"
    "CompleteData.data final = result_data input ol kw (concat chunks)"
    by blast
  then show "\<exists>final. completions events = [final]
           \<and> references (CompleteData.data final)
             = extractReferences
                 (ArticleResult.content (OutputData.article (CompleteData.data final)))"
    by (simp add: result_references)
qed

theorem extractReferences_without_heading_witness:
  "\<not> occurs_ci (js ''## References'') (js ''# Guide: no sources'')
   \<and> extractReferences (js ''# Guide: no sources'') = []"
proof -
  have h: "\<not> occurs_ci (js ''## References'') (js ''# Guide: no sources'')"
    by code_simp
  from extractReferences_without_heading
         [of "js ''# Guide: no sources''", THEN conjunct1, rule_format, OF h] h
  show ?thesis
    by blast
qed

lemma example_inline_heading_references:
  "extractReferences example_inline_heading = [\<lparr>number = 1, source = js ''a'', url = js ''b''\<rparr>]"
  by code_simp

lemma example_inline_heading_lines:
  "has_references_heading_line example_inline_heading = False"
  by code_simp

theorem inline_heading_counterexample:
  "\<not> has_references_heading_line example_inline_heading
   \<and> extractReferences example_inline_heading \<noteq> []"
  by (simp add: example_inline_heading_references example_inline_heading_lines)


end
